theory Spec2Isabelle
  imports Main
begin

section \<open>The minishell: constants and data\<close>

text \<open>
  A shallow embedding of \<^verbatim>\<open>minishell.c\<close>, as seen from the shell process (the parent of
  every \<^verbatim>\<open>fork\<close>). C \<^verbatim>\<open>int\<close> and \<^verbatim>\<open>pid_t\<close> values are \<open>int\<close>; where a user's input can make
  32-bit arithmetic overflow (\<^verbatim>\<open>atoi\<close> and the subtraction after it) the wrap-around is
  written out. A C array is a list whose length is the array's capacity;
  an access outside it is the fault \<open>Out_Of_Bounds\<close>, never a HOL default value.
\<close>

definition MAXIMUM_PID_LIST_SIZE :: nat where
  "MAXIMUM_PID_LIST_SIZE = 25"

definition MAXIMUM_JOB_LIST_SIZE :: int where
  "MAXIMUM_JOB_LIST_SIZE = 50"

definition STDIN_FILENO :: int where "STDIN_FILENO = 0"
definition STDOUT_FILENO :: int where "STDOUT_FILENO = 1"
definition STDERR_FILENO :: int where "STDERR_FILENO = 2"

datatype fault = Out_Of_Bounds | Null_Dereference

text \<open>C's \<^verbatim>\<open>%\<close> truncates towards zero: the remainder has the sign of the dividend.\<close>

definition c_rem :: "int \<Rightarrow> int \<Rightarrow> int" where
  "c_rem a b = sgn a * (\<bar>a\<bar> mod \<bar>b\<bar>)"

text \<open>Conversion of a mathematical integer to a 32-bit two's complement \<^verbatim>\<open>int\<close>.\<close>

definition to_int32 :: "int \<Rightarrow> int" where
  "to_int32 x = (x + 2 ^ 31) mod 2 ^ 32 - 2 ^ 31"

definition read_at :: "'a list \<Rightarrow> int \<Rightarrow> fault + 'a" where
  "read_at xs i = (if 0 \<le> i \<and> nat i < length xs then Inr (xs ! nat i) else Inl Out_Of_Bounds)"

definition write_at :: "'a list \<Rightarrow> int \<Rightarrow> 'a \<Rightarrow> fault + 'a list" where
  "write_at xs i v =
     (if 0 \<le> i \<and> nat i < length xs then Inr (xs[nat i := v]) else Inl Out_Of_Bounds)"

text \<open>\<^verbatim>\<open>tjob\<close>: the fields \<^verbatim>\<open>size\<close> and \<^verbatim>\<open>finished\<close> are \<open>job_size\<close> and \<open>job_finished\<close>
  here (the second is also the name of a function of the program).\<close>

record tjob =
  instruction :: string
  job_size :: int
  pids :: "int list"
  job_finished :: int

text \<open>\<^verbatim>\<open>tjobs\<close>: \<open>job_list\<close> is the \<^verbatim>\<open>malloc\<close>ed array of \<^verbatim>\<open>MAXIMUM_JOB_LIST_SIZE\<close> cells
  (all of them, also the cells at and beyond \<open>jobs_size\<close>, which hold stale or
  uninitialised jobs); \<open>jobs_size\<close> is the field \<^verbatim>\<open>size\<close>.\<close>

record tjobs =
  job_list :: "tjob list"
  jobs_size :: int

text \<open>The parser's \<^verbatim>\<open>tline\<close> and \<^verbatim>\<open>tcommand\<close> (\<^verbatim>\<open>parser.h\<close>), with the fields the shell reads.
  A \<^verbatim>\<open>NULL\<close> file name is \<open>None\<close>.\<close>

record tcommand =
  argv :: "string list"

record tline =
  ncommands :: int
  commands :: "tcommand list"
  redirect_input :: "string option"
  redirect_output :: "string option"
  redirect_error :: "string option"
  background :: int

section \<open>The operating system, as the shell sees it\<close>

text \<open>What a file descriptor is bound to: a stream inherited from whoever started the
  shell, a file opened by \<^verbatim>\<open>fopen\<close> (name and mode), or one end of the pipe number \<open>k\<close>.\<close>

datatype ofd = Inherited nat | Opened string string | Pipe_read nat | Pipe_write nat

datatype pstate = Running | Zombie

datatype handler = Ctrlc | Ctrlc2 | SIG_IGN

text \<open>One constructor per \<^verbatim>\<open>printf\<close>/\<^verbatim>\<open>fprintf\<close> format string of the program, with its
  arguments.\<close>

datatype msg =
    Open_error string            \<comment> \<open>\<^verbatim>\<open>"%s: Error. %s\n"\<close>, file name (and \<^verbatim>\<open>strerror(errno)\<close>)\<close>
  | Command_not_found string     \<comment> \<open>\<^verbatim>\<open>"%s: Command not found\n"\<close>\<close>
  | Job_started int int          \<comment> \<open>\<^verbatim>\<open>"[%i] %i\n"\<close>, \<^verbatim>\<open>jobs->size\<close> and pid\<close>
  | Job_done int string          \<comment> \<open>\<^verbatim>\<open>"[%i] Done\t%s"\<close>\<close>
  | Job_running int string       \<comment> \<open>\<^verbatim>\<open>"[%i] Running\t%s"\<close>\<close>
  | Fg_no_jobs                   \<comment> \<open>\<^verbatim>\<open>"fg: There are no jobs available\n"\<close>\<close>
  | Fg_no_such_job               \<comment> \<open>\<^verbatim>\<open>"fg: Error. No such job\n"\<close>\<close>
  | Fg_terminated                \<comment> \<open>\<^verbatim>\<open>"fg: job has terminated\n"\<close>\<close>
  | Fg_done string string        \<comment> \<open>\<^verbatim>\<open>"[%s] Done\t%s"\<close>\<close>
  | Fg_instruction string        \<comment> \<open>\<^verbatim>\<open>"%s"\<close>\<close>

text \<open>The system calls whose occurrence the properties below speak about, with their
  results: \<open>Sys_waitpid pid nohang r\<close> is \<^verbatim>\<open>waitpid(pid, NULL, WNOHANG)\<close> or
  \<^verbatim>\<open>waitpid(pid, NULL, 0)\<close> returning \<open>r\<close>; \<open>Sys_wait r\<close> is \<^verbatim>\<open>wait(NULL)\<close>.\<close>

datatype syscall =
    Sys_pipe bool
  | Sys_fork int
  | Sys_wait int
  | Sys_waitpid int bool int

text \<open>What becomes of a forked child: it replaces its image (\<^verbatim>\<open>execvp\<close> succeeded) with
  the given arguments and descriptor table, it exits with a status, or it is killed by
  a fault. The messages are what the child wrote to its error stream before.\<close>

datatype child_outcome =
    Execs "string list" "int \<Rightarrow> ofd option" "msg list"
  | Exits int "msg list"
  | Crashes fault "msg list"

text \<open>
  The state of the shell process and of the kernel around it.
  \<^item> \<open>fdt\<close>: the shell's descriptor table; \<open>nofile\<close>: the number of descriptors it may
    have (descriptors are \<open>0 .. nofile - 1\<close>).
  \<^item> \<open>procs\<close>: the shell's children that have not been reaped, in fork order, each
    still running or terminated and waiting to be reaped; \<open>images\<close>: what each
    forked child did; \<open>next_pid\<close>: the process id the next successful fork returns;
    \<open>pgrp\<close>: the shell's process group, which every child inherits.
  \<^item> \<open>fails n\<close>: the \<^verbatim>\<open>pipe\<close> or \<^verbatim>\<open>fork\<close> issued when \<open>n\<close> system calls are in the trace
    fails for lack of resources; \<open>eintr n\<close>: the blocking wait issued then is
    interrupted by a signal and returns -1; \<open>exit_order\<close>: the order in which running
    children terminate when the shell blocks; \<open>openable f m\<close>: \<^verbatim>\<open>fopen(f, m)\<close> can open
    the file; \<open>executable c\<close>: \<^verbatim>\<open>execvp\<close> finds and can run the program \<open>c\<close>.
  \<^item> \<open>sigint\<close>: the handler installed for \<^verbatim>\<open>SIGINT\<close>; \<open>jobs\<close>: the job list of \<^verbatim>\<open>main\<close>;
    \<open>out\<close>, \<open>err\<close>: what the shell printed; \<open>trace\<close>: the system calls it made.
\<close>

record shell =
  fdt :: "int \<Rightarrow> ofd option"
  nofile :: nat
  procs :: "(int \<times> pstate) list"
  images :: "(int \<times> child_outcome) list"
  next_pid :: int
  pgrp :: int
  fails :: "nat \<Rightarrow> bool"
  eintr :: "nat \<Rightarrow> bool"
  exit_order :: "int list"
  openable :: "string \<Rightarrow> string \<Rightarrow> bool"
  executable :: "string \<Rightarrow> bool"
  sigint :: handler
  jobs :: tjobs
  out :: "msg list"
  err :: "msg list"
  trace :: "syscall list"

subsection \<open>Descriptors\<close>

text \<open>\<^verbatim>\<open>dup2(oldfd, newfd)\<close>: fails (and changes nothing) when \<open>oldfd\<close> is not open or
  \<open>newfd\<close> is out of range; otherwise \<open>newfd\<close> is bound to what \<open>oldfd\<close> is bound to. The
  program ignores the result.\<close>

definition dup2_fdt :: "nat \<Rightarrow> int \<Rightarrow> int \<Rightarrow> (int \<Rightarrow> ofd option) \<Rightarrow> (int \<Rightarrow> ofd option)" where
  "dup2_fdt lim oldfd newfd t =
     (case t oldfd of
        None \<Rightarrow> t
      | Some d \<Rightarrow> if newfd < 0 \<or> int lim \<le> newfd then t else t(newfd \<mapsto> d))"

definition close_fdt :: "int \<Rightarrow> (int \<Rightarrow> ofd option) \<Rightarrow> (int \<Rightarrow> ofd option)" where
  "close_fdt fd t = t(fd := None)"

text \<open>The lowest descriptor that is free, searching \<open>fd, fd + 1, ...\<close> for \<open>n\<close> steps.\<close>

fun lowest_free :: "(int \<Rightarrow> ofd option) \<Rightarrow> nat \<Rightarrow> int \<Rightarrow> int option" where
  "lowest_free t 0 fd = None"
| "lowest_free t (Suc n) fd = (if t fd = None then Some fd else lowest_free t n (fd + 1))"

definition dup2 :: "int \<Rightarrow> int \<Rightarrow> shell \<Rightarrow> shell" where
  "dup2 oldfd newfd s = s\<lparr>fdt := dup2_fdt (nofile s) oldfd newfd (fdt s)\<rparr>"

definition close_fd :: "int \<Rightarrow> shell \<Rightarrow> shell" where
  "close_fd fd s = s\<lparr>fdt := close_fdt fd (fdt s)\<rparr>"

text \<open>\<^verbatim>\<open>pipe(p)\<close>: on success the two lowest free descriptors are bound to the read and
  the write end of a new pipe and stored in \<^verbatim>\<open>p[0]\<close>, \<^verbatim>\<open>p[1]\<close>; on failure \<^verbatim>\<open>p\<close> keeps
  what it held. The program ignores the result.\<close>

definition pipe_sys :: "int \<times> int \<Rightarrow> shell \<Rightarrow> (int \<times> int) \<times> shell" where
  "pipe_sys p s =
     (let k = length (trace s);
          failed = (p, s\<lparr>trace := trace s @ [Sys_pipe False]\<rparr>)
      in if fails s k then failed
         else (case lowest_free (fdt s) (nofile s) 0 of
                 None \<Rightarrow> failed
               | Some r \<Rightarrow>
                   (case lowest_free ((fdt s)(r \<mapsto> Pipe_read k)) (nofile s) 0 of
                      None \<Rightarrow> failed
                    | Some w \<Rightarrow>
                        ((r, w),
                         s\<lparr>fdt := (fdt s)(r \<mapsto> Pipe_read k, w \<mapsto> Pipe_write k),
                           trace := trace s @ [Sys_pipe True]\<rparr>))))"

subsection \<open>Processes\<close>

text \<open>\<^verbatim>\<open>fork()\<close>, in the parent: -1 on failure, else the new child's process id. The
  child's own run is the \<open>child_outcome\<close> the caller computed for it.\<close>

definition fork_sys :: "child_outcome \<Rightarrow> shell \<Rightarrow> int \<times> shell" where
  "fork_sys img s =
     (if fails s (length (trace s)) then (- 1, s\<lparr>trace := trace s @ [Sys_fork (- 1)]\<rparr>)
      else (next_pid s,
            s\<lparr>procs := procs s @ [(next_pid s, Running)],
              images := images s @ [(next_pid s, img)],
              next_pid := next_pid s + 1,
              trace := trace s @ [Sys_fork (next_pid s)]\<rparr>))"

text \<open>Which children the first argument of \<^verbatim>\<open>waitpid\<close> selects: a positive \<open>pid\<close> that
  child; -1 any child; 0 any child of the caller's process group; below -1 any child of
  the process group \<open>- pid\<close>. No child ever leaves the shell's process group.\<close>

definition selects :: "shell \<Rightarrow> int \<Rightarrow> int \<Rightarrow> bool" where
  "selects s pid c =
     (if 0 < pid then c = pid
      else if pid = - 1 \<or> pid = 0 then True
      else - pid = pgrp s)"

definition reap :: "int \<Rightarrow> shell \<Rightarrow> shell" where
  "reap c s = s\<lparr>procs := filter (\<lambda>e. fst e \<noteq> c) (procs s)\<rparr>"

text \<open>
  \<^verbatim>\<open>waitpid(pid, NULL, options)\<close>. With no selected child: -1. With a selected child
  that has terminated: it is reaped and its id returned. Otherwise, with \<^verbatim>\<open>WNOHANG\<close>:
  0; without: the call blocks, and returns -1 if a signal interrupts it, else the id
  of the selected child that terminates first (the first one named in \<open>exit_order\<close>, or
  the oldest when none is named), which is reaped.
\<close>

definition waitpid_sys :: "int \<Rightarrow> bool \<Rightarrow> shell \<Rightarrow> int \<times> shell" where
  "waitpid_sys pid nohang s =
     (let sel = filter (\<lambda>e. selects s pid (fst e)) (procs s);
          ret = (\<lambda>r s'. (r, s'\<lparr>trace := trace s @ [Sys_waitpid pid nohang r]\<rparr>))
      in case sel of
           [] \<Rightarrow> ret (- 1) s
         | e # es \<Rightarrow>
             (case find (\<lambda>e. snd e = Zombie) sel of
                Some z \<Rightarrow> ret (fst z) (reap (fst z) s)
              | None \<Rightarrow>
                  if nohang then ret 0 s
                  else if eintr s (length (trace s)) then ret (- 1) s
                  else (case find (\<lambda>c. c \<in> set (map fst sel)) (exit_order s) of
                          Some c \<Rightarrow> ret c (reap c s)
                        | None \<Rightarrow> ret (fst e) (reap (fst e) s))))"

text \<open>\<^verbatim>\<open>wait(NULL)\<close> is \<^verbatim>\<open>waitpid(-1, NULL, 0)\<close>: it waits for any child.\<close>

definition wait_sys :: "shell \<Rightarrow> int \<times> shell" where
  "wait_sys s =
     (let (r, s') = waitpid_sys (- 1) False s
      in (r, s'\<lparr>trace := trace s @ [Sys_wait r]\<rparr>))"

text \<open>Not a function of the shell but an event of its environment: the child \<open>c\<close>
  terminates, and stays in the process table until it is reaped.\<close>

definition child_exits :: "int \<Rightarrow> shell \<Rightarrow> shell" where
  "child_exits c s =
     s\<lparr>procs := map (\<lambda>e. if fst e = c then (c, Zombie) else e) (procs s)\<rparr>"

definition signal :: "handler \<Rightarrow> shell \<Rightarrow> shell" where
  "signal h s = s\<lparr>sigint := h\<rparr>"

definition printf :: "msg \<Rightarrow> shell \<Rightarrow> shell" where
  "printf m s = s\<lparr>out := out s @ [m]\<rparr>"

definition eprintf :: "msg \<Rightarrow> shell \<Rightarrow> shell" where
  "eprintf m s = s\<lparr>err := err s @ [m]\<rparr>"


section \<open>The job list\<close>

definition get_job :: "int \<Rightarrow> shell \<Rightarrow> fault + tjob" where
  "get_job j s = read_at (job_list (jobs s)) j"

definition put_job :: "int \<Rightarrow> tjob \<Rightarrow> shell \<Rightarrow> fault + shell" where
  "put_job j job s =
     (case write_at (job_list (jobs s)) j job of
        Inl e \<Rightarrow> Inl e
      | Inr xs \<Rightarrow> Inr (s\<lparr>jobs := (jobs s)\<lparr>job_list := xs\<rparr>\<rparr>))"

text \<open>\<^verbatim>\<open>finished(job)\<close>, with \<^verbatim>\<open>job == &jobs->list[j]\<close>. The loop polls the job's
  processes in order with \<^verbatim>\<open>waitpid(pid, NULL, WNOHANG)\<close> and leaves with 0 at the first
  call that does not return \<open>pid\<close>.\<close>

function finished_loop :: "int \<Rightarrow> int \<Rightarrow> int \<Rightarrow> shell \<Rightarrow> fault + (int \<times> shell)" where
  "finished_loop j jobSize index s =
     (if index < jobSize then
        (case get_job j s of
           Inl e \<Rightarrow> Inl e
         | Inr job \<Rightarrow>
             (case read_at (pids job) index of
                Inl e \<Rightarrow> Inl e
              | Inr pid \<Rightarrow>
                  if fst (waitpid_sys pid True s) \<noteq> pid then Inr (0, snd (waitpid_sys pid True s))
                  else finished_loop j jobSize (index + 1) (snd (waitpid_sys pid True s))))
      else
        (case get_job j s of
           Inl e \<Rightarrow> Inl e
         | Inr job \<Rightarrow>
             (case put_job j (job\<lparr>job_finished := 1\<rparr>) s of
                Inl e \<Rightarrow> Inl e
              | Inr s' \<Rightarrow> Inr (1, s'))))"
  by pat_completeness auto
termination
  by (relation "measure (\<lambda>(j, jobSize, index, s). nat (jobSize - index))") auto

definition finished :: "int \<Rightarrow> shell \<Rightarrow> fault + (int \<times> shell)" where
  "finished j s =
     (case get_job j s of
        Inl e \<Rightarrow> Inl e
      | Inr job \<Rightarrow>
          if job_finished job = 1 then Inr (1, s)
          else finished_loop j (job_size job) 0 s)"

text \<open>\<^verbatim>\<open>delete(job, jobs)\<close>: every cell from \<open>job\<close> up to \<open>jobs_size - 1\<close> takes the value
  of the cell after it, then the size is decremented modulo the capacity.\<close>

function delete_loop :: "int \<Rightarrow> int \<Rightarrow> tjob list \<Rightarrow> fault + tjob list" where
  "delete_loop index jobsSize xs =
     (if index < jobsSize then
        (case read_at xs (index + 1) of
           Inl e \<Rightarrow> Inl e
         | Inr v \<Rightarrow>
             (case write_at xs index v of
                Inl e \<Rightarrow> Inl e
              | Inr xs' \<Rightarrow> delete_loop (index + 1) jobsSize xs'))
      else Inr xs)"
  by pat_completeness auto
termination
  by (relation "measure (\<lambda>(index, jobsSize, xs). nat (jobsSize - index))") auto

definition delete :: "int \<Rightarrow> tjobs \<Rightarrow> fault + tjobs" where
  "delete job js =
     (case delete_loop job (jobs_size js) (job_list js) of
        Inl e \<Rightarrow> Inl e
      | Inr xs \<Rightarrow>
          Inr \<lparr>job_list = xs, jobs_size = c_rem (jobs_size js - 1) MAXIMUM_JOB_LIST_SIZE\<rparr>)"

text \<open>\<^verbatim>\<open>mshjobs\<close>. First loop: print the status of every job and record the index of
  each finished one in the local array \<^verbatim>\<open>finishedJobs\<close> (whose initial content is
  indeterminate, hence a parameter). Second loop: \<^verbatim>\<open>delete\<close> the recorded indices, in
  the order recorded.\<close>

function mshjobs_scan ::
  "int \<Rightarrow> int \<Rightarrow> int list \<Rightarrow> int \<Rightarrow> shell \<Rightarrow> fault + (int list \<times> int \<times> shell)" where
  "mshjobs_scan j jobsSize finishedJobs finishedJobsSize s =
     (if j < jobsSize then
        (case finished j s of
           Inl e \<Rightarrow> Inl e
         | Inr (r, s1) \<Rightarrow>
             (case get_job j s1 of
                Inl e \<Rightarrow> Inl e
              | Inr job \<Rightarrow>
                  if r \<noteq> 0 then
                    (case write_at finishedJobs finishedJobsSize j of
                       Inl e \<Rightarrow> Inl e
                     | Inr fj \<Rightarrow>
                         mshjobs_scan (j + 1) jobsSize fj
                           (c_rem (finishedJobsSize + 1) MAXIMUM_JOB_LIST_SIZE)
                           (printf (Job_done (j + 1) (instruction job)) s1))
                  else
                    mshjobs_scan (j + 1) jobsSize finishedJobs finishedJobsSize
                      (printf (Job_running (j + 1) (instruction job)) s1)))
      else Inr (finishedJobs, finishedJobsSize, s))"
  by pat_completeness auto
termination
  by (relation "measure (\<lambda>(j, jobsSize, fj, n, s). nat (jobsSize - j))") auto

function mshjobs_delete :: "int \<Rightarrow> int \<Rightarrow> int list \<Rightarrow> shell \<Rightarrow> fault + shell" where
  "mshjobs_delete j finishedJobsSize finishedJobs s =
     (if j < finishedJobsSize then
        (case read_at finishedJobs j of
           Inl e \<Rightarrow> Inl e
         | Inr k \<Rightarrow>
             (case delete k (jobs s) of
                Inl e \<Rightarrow> Inl e
              | Inr js \<Rightarrow> mshjobs_delete (j + 1) finishedJobsSize finishedJobs (s\<lparr>jobs := js\<rparr>)))
      else Inr s)"
  by pat_completeness auto
termination
  by (relation "measure (\<lambda>(j, n, fj, s). nat (n - j))") auto

definition mshjobs :: "int list \<Rightarrow> shell \<Rightarrow> fault + shell" where
  "mshjobs finishedJobs s =
     (case mshjobs_scan 0 (jobs_size (jobs s)) finishedJobs 0 s of
        Inl e \<Rightarrow> Inl e
      | Inr (fj, n, s1) \<Rightarrow> mshjobs_delete 0 n fj s1)"

subsection \<open>\<^verbatim>\<open>atoi\<close> and \<^verbatim>\<open>mshfg\<close>\<close>

text \<open>\<^verbatim>\<open>atoi\<close> as the C library has it, \<^verbatim>\<open>(int) strtol(s, NULL, 10)\<close> with a 64-bit
  \<^verbatim>\<open>long\<close>: leading white space, an optional sign, then decimal digits up to the first
  character that is none; the value is clamped to \<^verbatim>\<open>long\<close> and truncated to \<^verbatim>\<open>int\<close>.\<close>

definition isspace :: "char \<Rightarrow> bool" where
  "isspace c = ((of_char c :: nat) = 32 \<or> (9 \<le> (of_char c :: nat) \<and> (of_char c :: nat) \<le> 13))"

definition isdigit :: "char \<Rightarrow> bool" where
  "isdigit c = (48 \<le> (of_char c :: nat) \<and> (of_char c :: nat) \<le> 57)"

fun digits_val :: "int \<Rightarrow> string \<Rightarrow> int" where
  "digits_val acc [] = acc"
| "digits_val acc (c # cs) =
     (if isdigit c then digits_val (10 * acc + (of_char c - 48)) cs else acc)"

definition strtol :: "string \<Rightarrow> int" where
  "strtol s =
     (let v = (case dropWhile isspace s of
                 [] \<Rightarrow> 0
               | c # cs \<Rightarrow>
                   if c = CHR ''-'' then - digits_val 0 cs
                   else if c = CHR ''+'' then digits_val 0 cs
                   else digits_val 0 (c # cs))
      in max (- (2 ^ 63)) (min (2 ^ 63 - 1) v))"

definition atoi :: "string \<Rightarrow> int" where
  "atoi s = to_int32 (strtol s)"

function fg_wait_loop :: "int \<Rightarrow> int \<Rightarrow> int \<Rightarrow> shell \<Rightarrow> fault + shell" where
  "fg_wait_loop j jobSize index s =
     (if index < jobSize then
        (case get_job j s of
           Inl e \<Rightarrow> Inl e
         | Inr ranJob \<Rightarrow>
             (case read_at (pids ranJob) index of
                Inl e \<Rightarrow> Inl e
              | Inr pid \<Rightarrow> fg_wait_loop j jobSize (index + 1) (snd (waitpid_sys pid False s))))
      else Inr s)"
  by pat_completeness auto
termination
  by (relation "measure (\<lambda>(j, jobSize, index, s). nat (jobSize - index))") auto

text \<open>\<^verbatim>\<open>mshfg(job, jobs)\<close> for a \<^verbatim>\<open>job\<close> that is not \<^verbatim>\<open>NULL\<close>.\<close>

definition mshfg_arg :: "string \<Rightarrow> shell \<Rightarrow> fault + shell" where
  "mshfg_arg job s =
     (if jobs_size (jobs s) = 0 then Inr (printf Fg_no_jobs s)
      else
        let mappedJob = to_int32 (atoi job - 1) in
        if mappedJob < 0 \<or> mappedJob > jobs_size (jobs s) - 1
        then Inr (eprintf Fg_no_such_job s)
        else
          (case finished mappedJob (signal SIG_IGN s) of
             Inl e \<Rightarrow> Inl e
           | Inr (r, s2) \<Rightarrow>
               (case get_job mappedJob s2 of
                  Inl e \<Rightarrow> Inl e
                | Inr ranJob \<Rightarrow>
                    (case (if r \<noteq> 0
                           then Inr (printf (Fg_done job (instruction ranJob))
                                       (printf Fg_terminated s2))
                           else fg_wait_loop mappedJob (job_size ranJob) 0
                                  (printf (Fg_instruction (instruction ranJob)) s2)) of
                       Inl e \<Rightarrow> Inl e
                     | Inr s3 \<Rightarrow>
                         (case delete mappedJob (jobs s3) of
                            Inl e \<Rightarrow> Inl e
                          | Inr js \<Rightarrow> Inr (signal Ctrlc (s3\<lparr>jobs := js\<rparr>)))))))"

text \<open>\<^verbatim>\<open>mshfg\<close>: a \<^verbatim>\<open>NULL\<close> argument is the job \<^verbatim>\<open>"1"\<close>.\<close>

definition mshfg :: "string option \<Rightarrow> shell \<Rightarrow> fault + shell" where
  "mshfg job s = (case job of None \<Rightarrow> mshfg_arg ''1'' s | Some a \<Rightarrow> mshfg_arg a s)"


section \<open>Running a pipeline\<close>

subsection \<open>In a forked child\<close>

text \<open>A child starts with a copy of the shell's descriptor table and has written
  nothing to its error stream yet.\<close>

record child =
  cfdt :: "int \<Rightarrow> ofd option"
  cerr :: "msg list"

text \<open>
  \<^verbatim>\<open>auxiliarRedirect(filename, MODE, STD_FILENO)\<close>. \<^verbatim>\<open>fopen\<close> returns \<^verbatim>\<open>NULL\<close> when the file
  cannot be opened or no descriptor is free. The function then prints the diagnostic
  and goes on to \<^verbatim>\<open>fileno(file)\<close> with \<^verbatim>\<open>file == NULL\<close>, which dereferences the null
  pointer: the child is killed there. On success the file's descriptor is duplicated
  onto \<open>STD_FILENO\<close> and closed by \<^verbatim>\<open>fclose\<close> (the \<^verbatim>\<open>close\<close> after it finds it closed).
\<close>

definition auxiliarRedirect ::
  "shell \<Rightarrow> string \<Rightarrow> string \<Rightarrow> int \<Rightarrow> child \<Rightarrow> child_outcome + child" where
  "auxiliarRedirect s filename MODE STD_FILENO c =
     (case (if openable s filename MODE then lowest_free (cfdt c) (nofile s) 0 else None) of
        None \<Rightarrow> Inl (Crashes Null_Dereference (cerr c @ [Open_error filename]))
      | Some fd \<Rightarrow>
          Inr (c\<lparr>cfdt := close_fdt fd (close_fdt fd
                  (dup2_fdt (nofile s) fd STD_FILENO ((cfdt c)(fd \<mapsto> Opened filename MODE))))\<rparr>))"

text \<open>\<^verbatim>\<open>redirect(line)\<close>: error, then input, then output.\<close>

definition redirect :: "shell \<Rightarrow> tline \<Rightarrow> child \<Rightarrow> child_outcome + child" where
  "redirect s line c =
     (case (case redirect_error line of
              None \<Rightarrow> Inr c
            | Some f \<Rightarrow> auxiliarRedirect s f ''w'' STDERR_FILENO c) of
        Inl d \<Rightarrow> Inl d
      | Inr c1 \<Rightarrow>
          (case (case redirect_input line of
                   None \<Rightarrow> Inr c1
                 | Some f \<Rightarrow> auxiliarRedirect s f ''r'' STDIN_FILENO c1) of
             Inl d \<Rightarrow> Inl d
           | Inr c2 \<Rightarrow>
               (case redirect_output line of
                  None \<Rightarrow> Inr c2
                | Some f \<Rightarrow> auxiliarRedirect s f ''w'' STDOUT_FILENO c2)))"

text \<open>\<^verbatim>\<open>run(line, number)\<close>: \<^verbatim>\<open>execvp\<close>, and when that returns, the message and
  \<^verbatim>\<open>exit(EXIT_FAILURE)\<close>. An empty argument vector has \<^verbatim>\<open>argv[0] == NULL\<close>.\<close>

definition run :: "shell \<Rightarrow> tline \<Rightarrow> int \<Rightarrow> child \<Rightarrow> child_outcome" where
  "run s line number c =
     (case read_at (commands line) number of
        Inl e \<Rightarrow> Crashes e (cerr c)
      | Inr cmd \<Rightarrow>
          (case argv cmd of
             [] \<Rightarrow> Crashes Null_Dereference (cerr c)
           | command # args \<Rightarrow>
               if executable s command then Execs (argv cmd) (cfdt c) (cerr c)
               else Exits 1 (cerr c @ [Command_not_found command])))"

text \<open>The child branch after the first \<^verbatim>\<open>fork\<close> (command 0).\<close>

definition child_first :: "shell \<Rightarrow> tline \<Rightarrow> bool \<Rightarrow> int \<times> int \<Rightarrow> child_outcome" where
  "child_first s line next p =
     (case redirect s line \<lparr>cfdt = fdt s, cerr = []\<rparr> of
        Inl d \<Rightarrow> d
      | Inr c \<Rightarrow>
          run s line 0
            (if next
             then c\<lparr>cfdt := close_fdt (snd p)
                     (dup2_fdt (nofile s) (snd p) STDOUT_FILENO (close_fdt (fst p) (cfdt c)))\<rparr>
             else c))"

text \<open>The child branch of the loop, for the command number \<open>command\<close>; \<open>is_even\<close> and
  \<open>is_last\<close> are the locals \<^verbatim>\<open>even\<close> and \<^verbatim>\<open>last\<close>.\<close>

definition child_later ::
  "shell \<Rightarrow> tline \<Rightarrow> int \<Rightarrow> bool \<Rightarrow> bool \<Rightarrow> int \<times> int \<Rightarrow> int \<times> int \<Rightarrow> child_outcome" where
  "child_later s line command is_even is_last p p2 =
     (case redirect s line \<lparr>cfdt = fdt s, cerr = []\<rparr> of
        Inl d \<Rightarrow> d
      | Inr c \<Rightarrow>
          (let lim = nofile s;
               t1 = (if is_even
                     then (let t = dup2_fdt lim (fst p2) STDIN_FILENO (cfdt c)
                           in if \<not> is_last then dup2_fdt lim (snd p) STDOUT_FILENO t else t)
                     else (let t = dup2_fdt lim (fst p) STDIN_FILENO (cfdt c)
                           in if \<not> is_last then dup2_fdt lim (snd p2) STDOUT_FILENO t else t));
               t2 = close_fdt (snd p2) (close_fdt (fst p2) (close_fdt (snd p) (close_fdt (fst p) t1)))
           in run s line command (c\<lparr>cfdt := t2\<rparr>)))"

subsection \<open>In the shell\<close>

text \<open>\<^verbatim>\<open>store\<close> receives the addresses of three locals of its caller that were never
  assigned, and uses the values found there as the \<^emph>\<open>targets\<close> of \<^verbatim>\<open>dup2\<close>; it
  assigns nothing to them.\<close>

definition store :: "int \<Rightarrow> int \<Rightarrow> int \<Rightarrow> shell \<Rightarrow> shell" where
  "store stdinfd stdoutfd stderrfd s =
     dup2 STDOUT_FILENO stdoutfd (dup2 STDIN_FILENO stdinfd (dup2 STDERR_FILENO stderrfd s))"

definition restore :: "int \<Rightarrow> int \<Rightarrow> int \<Rightarrow> shell \<Rightarrow> shell" where
  "restore stdinfd stdoutfd stderrfd s =
     dup2 stdoutfd STDOUT_FILENO (dup2 stdinfd STDIN_FILENO (dup2 stderrfd STDERR_FILENO s))"

text \<open>The automatic variables of \<^verbatim>\<open>executeExternalCommands\<close> that are read before they
  are assigned (\<^verbatim>\<open>stdinfd\<close>, \<^verbatim>\<open>stdoutfd\<close>, \<^verbatim>\<open>stderrfd\<close>, \<^verbatim>\<open>p\<close>, \<^verbatim>\<open>p2\<close>): their initial values
  are indeterminate, so they are an input.\<close>

record locals =
  l_stdinfd :: int
  l_stdoutfd :: int
  l_stderrfd :: int
  l_p :: "int \<times> int"
  l_p2 :: "int \<times> int"

text \<open>The background branch after the first \<^verbatim>\<open>fork\<close>: the cell \<^verbatim>\<open>jobs->list[jobs->size]\<close>
  is filled in and the size is incremented modulo the capacity (\<open>ncmds\<close> is the local
  \<^verbatim>\<open>commands\<close>).\<close>

definition start_job :: "string \<Rightarrow> int \<Rightarrow> int \<Rightarrow> shell \<Rightarrow> fault + shell" where
  "start_job buffer ncmds pid s =
     (case get_job (jobs_size (jobs s)) s of
        Inl e \<Rightarrow> Inl e
      | Inr currentJob \<Rightarrow>
          (case write_at (pids currentJob) 0 pid of
             Inl e \<Rightarrow> Inl e
           | Inr ps \<Rightarrow>
               (case put_job (jobs_size (jobs s))
                       (currentJob\<lparr>instruction := buffer, job_size := ncmds,
                                    pids := ps, job_finished := 0\<rparr>) s of
                  Inl e \<Rightarrow> Inl e
                | Inr s1 \<Rightarrow>
                    Inr (s1\<lparr>jobs := (jobs s1)
                          \<lparr>jobs_size := c_rem (jobs_size (jobs s1) + 1) MAXIMUM_JOB_LIST_SIZE\<rparr>\<rparr>))))"

text \<open>\<^verbatim>\<open>currentJob->pids[command] = pid\<close>, with \<^verbatim>\<open>currentJob == &jobs->list[cur]\<close>.\<close>

definition record_pid :: "int \<Rightarrow> int \<Rightarrow> int \<Rightarrow> shell \<Rightarrow> fault + shell" where
  "record_pid cur command pid s =
     (case get_job cur s of
        Inl e \<Rightarrow> Inl e
      | Inr currentJob \<Rightarrow>
          (case write_at (pids currentJob) command pid of
             Inl e \<Rightarrow> Inl e
           | Inr ps \<Rightarrow> put_job cur (currentJob\<lparr>pids := ps\<rparr>) s))"

text \<open>What the shell does to its descriptors after a \<^verbatim>\<open>fork\<close> of the loop.\<close>

definition parent_closes :: "bool \<Rightarrow> bool \<Rightarrow> int \<times> int \<Rightarrow> int \<times> int \<Rightarrow> shell \<Rightarrow> shell" where
  "parent_closes is_even is_last p p2 s =
     (if is_even
      then (let s1 = close_fd (fst p2) (close_fd (snd p) (dup2 STDIN_FILENO (snd p) s))
            in if is_last then close_fd (snd p2) (close_fd (fst p) s1) else s1)
      else (let s1 = close_fd (fst p) (close_fd (snd p2) (dup2 STDIN_FILENO (snd p2) s))
            in if is_last then close_fd (snd p) (close_fd (fst p2) s1) else s1))"

text \<open>One iteration of the \<^verbatim>\<open>for\<close> loop, in the shell, for the command number
  \<open>command\<close>: a new pipe in \<^verbatim>\<open>p\<close> or \<^verbatim>\<open>p2\<close>, the \<^verbatim>\<open>fork\<close>, the closing of descriptors, and
  then either the child's process id is stored in the job (background) or the shell
  calls \<^verbatim>\<open>wait(NULL)\<close>. The result holds the new values of \<^verbatim>\<open>p\<close> and \<^verbatim>\<open>p2\<close> and the new
  state.\<close>

definition spawn_step ::
  "tline \<Rightarrow> bool \<Rightarrow> int \<Rightarrow> int \<Rightarrow> int \<times> int \<Rightarrow> int \<times> int \<Rightarrow> shell
   \<Rightarrow> fault + ((int \<times> int) \<times> (int \<times> int) \<times> shell)" where
  "spawn_step line bg cur command p p2 s =
     (let is_even = (c_rem command 2 = 0);
          is_last = (command = ncommands line - 1);
          piped = (if is_even then pipe_sys p s else pipe_sys p2 s);
          p' = (if is_even then fst piped else p);
          p2' = (if is_even then p2 else fst piped);
          s1 = snd piped;
          forked = fork_sys (child_later s1 line command is_even is_last p' p2') s1;
          pid = fst forked;
          s2 = parent_closes is_even is_last p' p2' (snd forked)
      in if bg
         then (case record_pid cur command pid s2 of
                 Inl e \<Rightarrow> Inl e
               | Inr s3 \<Rightarrow>
                   Inr (p', p2',
                        if is_last then printf (Job_started (jobs_size (jobs s3)) pid) s3 else s3))
         else Inr (p', p2', snd (wait_sys s2)))"

text \<open>The \<^verbatim>\<open>for\<close> loop over the commands 1, 2, ... of the pipeline.\<close>

function spawn_loop ::
  "tline \<Rightarrow> bool \<Rightarrow> bool \<Rightarrow> int \<Rightarrow> int \<Rightarrow> int \<times> int \<Rightarrow> int \<times> int \<Rightarrow> shell \<Rightarrow> fault + shell" where
  "spawn_loop line next bg cur command p p2 s =
     (if next \<and> command < ncommands line then
        (case spawn_step line bg cur command p p2 s of
           Inl e \<Rightarrow> Inl e
         | Inr r \<Rightarrow> spawn_loop line next bg cur (command + 1) (fst r) (fst (snd r)) (snd (snd r)))
      else Inr s)"
  by pat_completeness auto
termination
  by (relation "measure (\<lambda>(line, next, bg, cur, command, p, p2, s). nat (ncommands line - command))")
     auto

text \<open>The part of \<^verbatim>\<open>executeExternalCommands\<close> before the loop, in the shell: the handler,
  \<^verbatim>\<open>store\<close>, the first pipe when there are several commands, the first \<^verbatim>\<open>fork\<close>,
  \<^verbatim>\<open>close(p[PIPE_WRITE])\<close>, \<^verbatim>\<open>restore\<close>, and the registration of the job or the
  \<^verbatim>\<open>wait(NULL)\<close>. The result holds \<^verbatim>\<open>p\<close>, the index of the cell \<^verbatim>\<open>currentJob\<close> points to,
  and the new state.\<close>

definition spawn_first ::
  "tline \<Rightarrow> string \<Rightarrow> locals \<Rightarrow> shell \<Rightarrow> fault + ((int \<times> int) \<times> int \<times> shell)" where
  "spawn_first line buffer l s =
     (let s1 = store (l_stdinfd l) (l_stdoutfd l) (l_stderrfd l) (signal Ctrlc2 s);
          next = (ncommands line > 1);
          bg = (background line = 1);
          piped = (if next then pipe_sys (l_p l) s1 else (l_p l, s1));
          p' = fst piped;
          forked = fork_sys (child_first (snd piped) line next p') (snd piped);
          pid = fst forked;
          s2 = restore (l_stdinfd l) (l_stdoutfd l) (l_stderrfd l) (close_fd (snd p') (snd forked));
          cur = jobs_size (jobs s2)
      in if bg
         then (case start_job buffer (ncommands line) pid s2 of
                 Inl e \<Rightarrow> Inl e
               | Inr s3 \<Rightarrow>
                   Inr (p', cur,
                        if \<not> next then printf (Job_started (jobs_size (jobs s3)) pid) s3 else s3))
         else Inr (p', cur, snd (wait_sys s2)))"

text \<open>\<^verbatim>\<open>executeExternalCommands(line, jobs, buffer)\<close>, in the shell: the child branches
  never come back (\<^verbatim>\<open>run\<close> ends in \<^verbatim>\<open>execvp\<close> or \<^verbatim>\<open>exit\<close>), and a failed \<^verbatim>\<open>fork\<close> returns
  -1, which is not \<^verbatim>\<open>FORK_CHILD\<close>, so the shell takes the \<^verbatim>\<open>else\<close> branch then too.\<close>

definition executeExternalCommands :: "tline \<Rightarrow> string \<Rightarrow> locals \<Rightarrow> shell \<Rightarrow> fault + shell" where
  "executeExternalCommands line buffer l s =
     (case spawn_first line buffer l s of
        Inl e \<Rightarrow> Inl e
      | Inr r \<Rightarrow>
          (case spawn_loop line (ncommands line > 1) (background line = 1)
                  (fst (snd r)) 1 (fst r) (l_p2 l) (snd (snd r)) of
             Inl e \<Rightarrow> Inl e
           | Inr s5 \<Rightarrow>
               Inr (signal Ctrlc
                      (restore (l_stdinfd l) (l_stdoutfd l) (l_stderrfd l) s5))))"

section \<open>Sessions and observations\<close>

text \<open>
  What happens to the shell between two prompts: \<^verbatim>\<open>main\<close> hands a line to
  \<^verbatim>\<open>executeExternalCommands\<close> (with whatever its stack frame holds), or runs \<^verbatim>\<open>jobs\<close>
  (\<^verbatim>\<open>mshjobs\<close>, with whatever its local array holds) or \<^verbatim>\<open>fg\<close> (\<^verbatim>\<open>mshfg\<close>); or, outside the
  shell, one of its children terminates. A session is a sequence of these.
\<close>

datatype event =
    Line tline string locals
  | Jobs_command "int list"
  | Fg_command "string option"
  | Child_exit int

fun occurs :: "event \<Rightarrow> shell \<Rightarrow> fault + shell" where
  "occurs (Line line buffer l) s = executeExternalCommands line buffer l s"
| "occurs (Jobs_command finishedJobs) s = mshjobs finishedJobs s"
| "occurs (Fg_command job) s = mshfg job s"
| "occurs (Child_exit c) s = Inr (child_exits c s)"

fun session :: "event list \<Rightarrow> shell \<Rightarrow> fault + shell" where
  "session [] s = Inr s"
| "session (e # es) s = (case occurs e s of Inl f \<Rightarrow> Inl f | Inr s' \<Rightarrow> session es s')"

definition and_then :: "fault + 'a \<Rightarrow> ('a \<Rightarrow> fault + 'b) \<Rightarrow> fault + 'b" where
  "and_then r f = (case r of Inl e \<Rightarrow> Inl e | Inr x \<Rightarrow> f x)"

definition on_return :: "('a \<Rightarrow> 'b) \<Rightarrow> fault + 'a \<Rightarrow> fault + 'b" where
  "on_return f r = (case r of Inl e \<Rightarrow> Inl e | Inr x \<Rightarrow> Inr (f x))"

text \<open>The bindings of the three standard streams.\<close>

definition stream_bindings :: "shell \<Rightarrow> ofd option list" where
  "stream_bindings s = [fdt s STDIN_FILENO, fdt s STDOUT_FILENO, fdt s STDERR_FILENO]"

text \<open>The number of calls of \<^verbatim>\<open>pipe\<close> in a trace, and of those that created a pipe.\<close>

fun is_pipe_call :: "syscall \<Rightarrow> bool" where
  "is_pipe_call (Sys_pipe ok) = True"
| "is_pipe_call c = False"

definition pipe_calls :: "shell \<Rightarrow> nat" where
  "pipe_calls s = length (filter is_pipe_call (trace s))"


text \<open>The jobs the registry shows: the first \<open>jobs_size\<close> cells of the array. The job
  in the cell \<open>i\<close> has the slot number \<open>i + 1\<close>.\<close>

definition visible :: "tjobs \<Rightarrow> tjob list" where
  "visible js = take (nat (jobs_size js)) (job_list js)"

definition visible_jobs :: "shell \<Rightarrow> tjob list" where
  "visible_jobs s = visible (jobs s)"

definition registry_size :: "shell \<Rightarrow> int" where
  "registry_size s = jobs_size (jobs s)"

definition listed_instructions :: "shell \<Rightarrow> string list" where
  "listed_instructions s = map instruction (visible_jobs s)"

definition listed_pids :: "shell \<Rightarrow> int list list" where
  "listed_pids s = map (\<lambda>job. take (nat (job_size job)) (pids job)) (visible_jobs s)"

definition messages_from :: "nat \<Rightarrow> shell \<Rightarrow> msg list" where
  "messages_from n s = drop n (out s)"

text \<open>A registry as the program keeps it: an array of \<^verbatim>\<open>MAXIMUM_JOB_LIST_SIZE\<close> cells and a
  size from 0 to \<^verbatim>\<open>MAXIMUM_JOB_LIST_SIZE - 1\<close>.\<close>

definition wf_registry :: "tjobs \<Rightarrow> bool" where
  "wf_registry js =
     (length (job_list js) = nat MAXIMUM_JOB_LIST_SIZE \<and>
      0 \<le> jobs_size js \<and> jobs_size js < MAXIMUM_JOB_LIST_SIZE)"

text \<open>Two job lists of the same length that agree in every cell except, possibly, the
  cell \<open>c\<close>.\<close>

definition untouched_but :: "nat \<Rightarrow> tjobs \<Rightarrow> tjobs \<Rightarrow> bool" where
  "untouched_but c js js' =
     (length (job_list js') = length (job_list js) \<and>
      (\<forall>i. i \<noteq> c \<longrightarrow> job_list js' ! i = job_list js ! i))"

text \<open>The cell \<open>cur\<close> exists and its \<^verbatim>\<open>pids\<close> array has room for the process ids of \<open>n\<close>
  commands (and for at least one).\<close>

definition room_for :: "int \<Rightarrow> int \<Rightarrow> tjobs \<Rightarrow> bool" where
  "room_for n cur js =
     (0 \<le> cur \<and> nat cur < length (job_list js) \<and>
      0 < length (pids (job_list js ! nat cur)) \<and>
      n \<le> int (length (pids (job_list js ! nat cur))))"

text \<open>Two job lists of the same size and length whose cell \<open>j\<close> holds the same process
  ids and the same number of processes.\<close>

definition same_shape :: "int \<Rightarrow> tjobs \<Rightarrow> tjobs \<Rightarrow> bool" where
  "same_shape j js js' =
     (jobs_size js' = jobs_size js \<and> length (job_list js') = length (job_list js) \<and>
      pids (job_list js' ! nat j) = pids (job_list js ! nat j) \<and>
      job_size (job_list js' ! nat j) = job_size (job_list js ! nat j))"

text \<open>A registry in which no visible job has more processes than its \<^verbatim>\<open>pids\<close> array has
  cells.\<close>

definition fits :: "tjobs \<Rightarrow> bool" where
  "fits js =
     (wf_registry js \<and>
      (\<forall>i<nat (jobs_size js). job_size (job_list js ! i) \<le> int (length (pids (job_list js ! i)))))"

text \<open>The calls in a trace that satisfy \<open>P\<close>, and the calls of \<^verbatim>\<open>pipe\<close> that failed.\<close>

definition calls_of :: "(syscall \<Rightarrow> bool) \<Rightarrow> shell \<Rightarrow> nat" where
  "calls_of P s = length (filter P (trace s))"


text \<open>The results of the calls of \<^verbatim>\<open>fork\<close> in a trace, in order (-1 for a call that failed);
  the system calls made between the state \<open>s\<close> and the later state \<open>s'\<close>; and the results of
  the calls of \<^verbatim>\<open>fork\<close> among them.\<close>

fun fork_results :: "syscall list \<Rightarrow> int list" where
  "fork_results [] = []"
| "fork_results (Sys_fork pid # cs) = pid # fork_results cs"
| "fork_results (c # cs) = fork_results cs"

definition new_calls :: "shell \<Rightarrow> shell \<Rightarrow> syscall list" where
  "new_calls s s' = drop (length (trace s)) (trace s')"

definition forked_pids :: "shell \<Rightarrow> shell \<Rightarrow> int list" where
  "forked_pids s s' = fork_results (new_calls s s')"

text \<open>The cell of the array that the size counter of \<open>s\<close> points to, as it is in \<open>s'\<close>.\<close>

definition written_cell :: "shell \<Rightarrow> shell \<Rightarrow> tjob" where
  "written_cell s s' = job_list (jobs s') ! nat (jobs_size (jobs s))"



text \<open>A number that is not one of the three standard streams; a shell whose standard streams
  are open and that has no descriptor of negative number; two shells with the same standard
  streams; and a stack frame whose never-assigned words name no descriptor the shell has.\<close>

definition safe_fd :: "int \<Rightarrow> bool" where
  "safe_fd x = (x < 0 \<or> 3 \<le> x)"

definition safe_pair :: "int \<times> int \<Rightarrow> bool" where
  "safe_pair p = (safe_fd (fst p) \<and> safe_fd (snd p))"

definition streams_open :: "shell \<Rightarrow> bool" where
  "streams_open s =
     (fdt s 0 \<noteq> None \<and> fdt s 1 \<noteq> None \<and> fdt s 2 \<noteq> None \<and> (\<forall>x<0. fdt s x = None))"

definition keeps_streams :: "shell \<Rightarrow> shell \<Rightarrow> bool" where
  "keeps_streams s s' =
     (fdt s' 0 = fdt s 0 \<and> fdt s' 1 = fdt s 1 \<and> fdt s' 2 = fdt s 2 \<and> streams_open s')"

definition harmless_frame :: "locals \<Rightarrow> bool" where
  "harmless_frame l =
     (l_stdinfd l < 0 \<and> l_stdoutfd l < 0 \<and> l_stderrfd l < 0 \<and>
      safe_pair (l_p l) \<and> safe_pair (l_p2 l))"

subsection \<open>Concrete inputs\<close>

text \<open>A shell as \<^verbatim>\<open>main\<close> starts it: the three standard streams open, no child, no job,
  the idle handler installed, an array of \<^verbatim>\<open>MAXIMUM_JOB_LIST_SIZE\<close> cells. Every file can
  be opened and every program run, except the file \<^verbatim>\<open>missing\<close>.\<close>

definition blank_job :: tjob where
  "blank_job =
     \<lparr>instruction = [], job_size = 0, pids = replicate MAXIMUM_PID_LIST_SIZE 0, job_finished = 0\<rparr>"

definition shell0 :: shell where
  "shell0 =
     \<lparr>fdt = [0 \<mapsto> Inherited 0, 1 \<mapsto> Inherited 1, 2 \<mapsto> Inherited 2],
      nofile = 16, procs = [], images = [], next_pid = 100, pgrp = 99,
      fails = (\<lambda>n. False), eintr = (\<lambda>n. False), exit_order = [],
      openable = (\<lambda>f m. f \<noteq> ''missing''), executable = (\<lambda>c. True),
      sigint = Ctrlc,
      jobs = \<lparr>job_list = replicate (nat MAXIMUM_JOB_LIST_SIZE) blank_job, jobs_size = 0\<rparr>,
      out = [], err = [], trace = []\<rparr>"

text \<open>The line \<^verbatim>\<open>c1 | c2 | ...\<close> without redirection; \<open>bg = 1\<close> when it ends in \<^verbatim>\<open>&\<close>.\<close>

definition pipeline :: "string list \<Rightarrow> int \<Rightarrow> tline" where
  "pipeline cs bg =
     \<lparr>ncommands = int (length cs), commands = map (\<lambda>c. \<lparr>argv = [c]\<rparr>) cs,
      redirect_input = None, redirect_output = None, redirect_error = None, background = bg\<rparr>"

text \<open>Two stack frames: one filled with zeros, one whose words are all -1 (no
  descriptor has that number).\<close>

definition zero_frame :: locals where
  "zero_frame = \<lparr>l_stdinfd = 0, l_stdoutfd = 0, l_stderrfd = 0, l_p = (0, 0), l_p2 = (0, 0)\<rparr>"

definition ones_frame :: locals where
  "ones_frame =
     \<lparr>l_stdinfd = - 1, l_stdoutfd = - 1, l_stderrfd = - 1, l_p = (- 1, - 1), l_p2 = (- 1, - 1)\<rparr>"

definition zero_array :: "int list" where
  "zero_array = replicate (nat MAXIMUM_JOB_LIST_SIZE) 0"

text \<open>The job of a one-command line whose process is \<open>pid\<close>; a shell with one background
  job, \<^verbatim>\<open>a &\<close>, whose process 100 is running; a shell whose registry counts 49 jobs; and a
  registry of three jobs.\<close>

definition job_of :: "string \<Rightarrow> int \<Rightarrow> tjob" where
  "job_of buffer pid =
     \<lparr>instruction = buffer, job_size = 1,
      pids = (replicate MAXIMUM_PID_LIST_SIZE 0)[0 := pid], job_finished = 0\<rparr>"

definition shell1 :: shell where
  "shell1 =
     shell0\<lparr>procs := [(100, Running)], images := [(100, Execs [''a''] (fdt shell0) [])],
            next_pid := 101,
            jobs := \<lparr>job_list = (replicate (nat MAXIMUM_JOB_LIST_SIZE) blank_job)
                                  [0 := job_of ''a &'' 100],
                     jobs_size = 1\<rparr>,
            out := [Job_started 1 100], trace := [Sys_fork 100]\<rparr>"

definition shell49 :: shell where
  "shell49 = shell0\<lparr>jobs := (jobs shell0)\<lparr>jobs_size := 49\<rparr>\<rparr>"

definition three_jobs :: tjobs where
  "three_jobs =
     \<lparr>job_list = (replicate (nat MAXIMUM_JOB_LIST_SIZE) blank_job)
                    [0 := job_of ''a &'' 100, 1 := job_of ''b &'' 101, 2 := job_of ''c &'' 102],
      jobs_size = 3\<rparr>"

text \<open>A shell in which every blocking wait is interrupted by a signal.\<close>

definition interrupted_shell :: shell where
  "interrupted_shell = shell0\<lparr>eintr := (\<lambda>n. True)\<rparr>"

subsection \<open>Sessions\<close>

text \<open>\<^verbatim>\<open>a | b &\<close>; \<^verbatim>\<open>a\<close> terminates; \<^verbatim>\<open>jobs\<close>; \<^verbatim>\<open>b\<close> terminates.\<close>

definition half_reaped :: "fault + shell" where
  "half_reaped =
     session [Line (pipeline [''a'', ''b''] 1) ''a | b &'' ones_frame, Child_exit 100,
              Jobs_command zero_array, Child_exit 101] shell0"

text \<open>\<^verbatim>\<open>a &\<close>, \<^verbatim>\<open>b &\<close>, \<^verbatim>\<open>c &\<close>; \<^verbatim>\<open>a\<close> and \<^verbatim>\<open>b\<close> terminate; \<^verbatim>\<open>jobs\<close>.\<close>

definition three_jobs_listed :: "fault + shell" where
  "three_jobs_listed =
     session [Line (pipeline [''a''] 1) ''a &'' ones_frame,
              Line (pipeline [''b''] 1) ''b &'' ones_frame,
              Line (pipeline [''c''] 1) ''c &'' ones_frame,
              Child_exit 100, Child_exit 101, Jobs_command zero_array] shell0"

text \<open>\<^verbatim>\<open>cat < missing\<close>.\<close>

definition cat_from_missing :: tline where
  "cat_from_missing = (pipeline [''cat''] 0)\<lparr>redirect_input := Some ''missing''\<rparr>"

text \<open>\<^verbatim>\<open>a &\<close>; \<^verbatim>\<open>a\<close> terminates; \<^verbatim>\<open>ls\<close> in the foreground.\<close>

definition fg_after_bg_exit :: "fault + shell" where
  "fg_after_bg_exit =
     session [Line (pipeline [''a''] 1) ''a &'' ones_frame, Child_exit 100,
              Line (pipeline [''ls''] 0) ''ls'' ones_frame] shell0"

text \<open>\<^verbatim>\<open>a &\<close>, \<open>n\<close> times.\<close>

definition background_jobs :: "nat \<Rightarrow> fault + shell" where
  "background_jobs n = session (replicate n (Line (pipeline [''a''] 1) ''a &'' ones_frame)) shell0"

section \<open>Properties\<close>

text \<open>The recursive equations of the loops are unfolded by hand.\<close>

declare finished_loop.simps [simp del] delete_loop.simps [simp del] mshjobs_scan.simps [simp del]
  mshjobs_delete.simps [simp del] fg_wait_loop.simps [simp del] spawn_loop.simps [simp del]

subsection \<open>What the system calls leave alone\<close>

lemma dup2_frame [simp]:
  "trace (dup2 a b s) = trace s" "jobs (dup2 a b s) = jobs s" "out (dup2 a b s) = out s"
  "err (dup2 a b s) = err s" "sigint (dup2 a b s) = sigint s"
  by (simp_all add: dup2_def)

lemma close_fd_frame [simp]:
  "trace (close_fd a s) = trace s" "jobs (close_fd a s) = jobs s" "out (close_fd a s) = out s"
  "err (close_fd a s) = err s" "sigint (close_fd a s) = sigint s"
  by (simp_all add: close_fd_def)

lemma signal_frame [simp]:
  "trace (signal h s) = trace s" "jobs (signal h s) = jobs s" "out (signal h s) = out s"
  "err (signal h s) = err s" "sigint (signal h s) = h"
  by (simp_all add: signal_def)

lemma printf_frame [simp]:
  "trace (printf m s) = trace s" "jobs (printf m s) = jobs s" "out (printf m s) = out s @ [m]"
  "err (printf m s) = err s" "sigint (printf m s) = sigint s"
  by (simp_all add: printf_def)

lemma store_frame [simp]:
  "trace (store a b c s) = trace s" "jobs (store a b c s) = jobs s" "out (store a b c s) = out s"
  "err (store a b c s) = err s" "sigint (store a b c s) = sigint s"
  by (simp_all add: store_def)

lemma restore_frame [simp]:
  "trace (restore a b c s) = trace s" "jobs (restore a b c s) = jobs s"
  "out (restore a b c s) = out s" "err (restore a b c s) = err s"
  "sigint (restore a b c s) = sigint s"
  by (simp_all add: restore_def)

lemma parent_closes_frame [simp]:
  "trace (parent_closes e l p p2 s) = trace s" "jobs (parent_closes e l p p2 s) = jobs s"
  "out (parent_closes e l p p2 s) = out s" "err (parent_closes e l p p2 s) = err s"
  "sigint (parent_closes e l p p2 s) = sigint s"
  by (simp_all add: parent_closes_def Let_def)

lemma pipe_sys_frame [simp]:
  "jobs (snd (pipe_sys p s)) = jobs s" "out (snd (pipe_sys p s)) = out s"
  "err (snd (pipe_sys p s)) = err s" "sigint (snd (pipe_sys p s)) = sigint s"
  by (simp_all add: pipe_sys_def Let_def split: option.splits)

lemma pipe_sys_pipe_calls [simp]: "pipe_calls (snd (pipe_sys p s)) = Suc (pipe_calls s)"
  by (simp add: pipe_sys_def pipe_calls_def Let_def split: option.splits)

lemma fork_sys_frame [simp]:
  "jobs (snd (fork_sys img s)) = jobs s" "out (snd (fork_sys img s)) = out s"
  "err (snd (fork_sys img s)) = err s" "sigint (snd (fork_sys img s)) = sigint s"
  by (simp_all add: fork_sys_def)

lemma fork_sys_trace: "trace (snd (fork_sys img s)) = trace s @ [Sys_fork (fst (fork_sys img s))]"
  by (simp add: fork_sys_def)

lemma reap_frame [simp]:
  "trace (reap c s) = trace s" "jobs (reap c s) = jobs s" "out (reap c s) = out s"
  "err (reap c s) = err s" "sigint (reap c s) = sigint s"
  by (simp_all add: reap_def)

lemma waitpid_sys_frame [simp]:
  "jobs (snd (waitpid_sys pid h s)) = jobs s" "out (snd (waitpid_sys pid h s)) = out s"
  "err (snd (waitpid_sys pid h s)) = err s" "sigint (snd (waitpid_sys pid h s)) = sigint s"
  by (simp_all add: waitpid_sys_def Let_def split: list.splits option.splits)

lemma waitpid_sys_trace:
  "trace (snd (waitpid_sys pid h s)) = trace s @ [Sys_waitpid pid h (fst (waitpid_sys pid h s))]"
  by (simp add: waitpid_sys_def Let_def split: list.splits option.splits)

lemma wait_sys_frame [simp]:
  "jobs (snd (wait_sys s)) = jobs s" "out (snd (wait_sys s)) = out s"
  "err (snd (wait_sys s)) = err s" "sigint (snd (wait_sys s)) = sigint s"
  by (simp_all add: wait_sys_def waitpid_sys_def Let_def split: list.splits option.splits)

lemma wait_sys_trace: "trace (snd (wait_sys s)) = trace s @ [Sys_wait (fst (wait_sys s))]"
  by (simp add: wait_sys_def split: prod.splits)


lemma pipe_calls_frame [simp]:
  "pipe_calls (dup2 a b s) = pipe_calls s" "pipe_calls (close_fd a s) = pipe_calls s"
  "pipe_calls (signal h s) = pipe_calls s" "pipe_calls (printf m s) = pipe_calls s"
  "pipe_calls (store a b c s) = pipe_calls s" "pipe_calls (restore a b c s) = pipe_calls s"
  "pipe_calls (parent_closes e l p p2 s) = pipe_calls s"
  "pipe_calls (snd (fork_sys img s)) = pipe_calls s"
  "pipe_calls (snd (wait_sys s)) = pipe_calls s"
  by (simp_all add: pipe_calls_def fork_sys_trace wait_sys_trace)

subsection \<open>The job list under the operations of a pipeline\<close>

lemma put_job_frame:
  assumes "put_job j job s = Inr s'"
  shows "trace s' = trace s" "out s' = out s" "err s' = err s" "sigint s' = sigint s"
    "jobs_size (jobs s') = jobs_size (jobs s)" "pipe_calls s' = pipe_calls s"
  using assms by (auto simp: put_job_def write_at_def pipe_calls_def split: if_splits)

lemma record_pid_frame:
  assumes "record_pid cur command pid s = Inr s'"
  shows "trace s' = trace s" "out s' = out s" "err s' = err s" "sigint s' = sigint s"
    "jobs_size (jobs s') = jobs_size (jobs s)" "pipe_calls s' = pipe_calls s"
  using assms
  by (auto simp: record_pid_def split: sum.splits dest: put_job_frame)

lemma start_job_frame:
  assumes "start_job buffer n pid s = Inr s'"
  shows "trace s' = trace s" "out s' = out s" "err s' = err s" "sigint s' = sigint s"
    "pipe_calls s' = pipe_calls s"
    "jobs_size (jobs s') = c_rem (jobs_size (jobs s) + 1) MAXIMUM_JOB_LIST_SIZE"
  using assms
  by (auto simp: start_job_def pipe_calls_def split: sum.splits dest: put_job_frame)

subsection \<open>One iteration, and the loop\<close>

lemma spawn_step_foreground: "\<exists>r. spawn_step line False cur command p p2 s = Inr r"
  by (simp add: spawn_step_def Let_def)


lemma spawn_loop_foreground: "\<exists>s'. spawn_loop line nxt False cur command p p2 s = Inr s'"
proof (induction line nxt "False" cur command p p2 s rule: spawn_loop.induct)
  case (1 line nxt cur command p p2 s)
  show ?case
  proof (cases "nxt \<and> command < ncommands line")
    case True
    obtain r where r: "spawn_step line False cur command p p2 s = Inr r"
      using spawn_step_foreground by blast
    from "1" [OF True r] True r show ?thesis
      by (subst spawn_loop.simps) simp
  next
    case False
    then show ?thesis by (subst spawn_loop.simps) auto
  qed
qed



subsection \<open>The whole call\<close>

lemma spawn_first_foreground:
  "background line \<noteq> 1 \<Longrightarrow> \<exists>r. spawn_first line buffer l s = Inr r"
  by (simp add: spawn_first_def Let_def)


lemma executeExternalCommands_foreground:
  assumes "background line \<noteq> 1"
  shows "\<exists>s'. executeExternalCommands line buffer l s = Inr s'"
proof -
  obtain r where r: "spawn_first line buffer l s = Inr r"
    using spawn_first_foreground [OF assms] by blast
  obtain s5 where "spawn_loop line (ncommands line > 1) False (fst (snd r)) 1 (fst r) (l_p2 l)
      (snd (snd r)) = Inr s5"
    using spawn_loop_foreground by blast
  with r assms show ?thesis
    by (simp add: executeExternalCommands_def)
qed

lemma executeExternalCommands_sigint:
  "executeExternalCommands line buffer l s = Inr s' \<Longrightarrow> sigint s' = Ctrlc"
  by (auto simp: executeExternalCommands_def split: sum.splits)



subsection \<open>Cells of the job list\<close>

lemma untouched_but_refl [simp]: "untouched_but c js js"
  by (simp add: untouched_but_def)

lemma untouched_but_trans:
  "untouched_but c js js' \<Longrightarrow> untouched_but c js' js'' \<Longrightarrow> untouched_but c js js''"
  by (simp add: untouched_but_def)

lemma put_job_cells:
  assumes "put_job j job s = Inr s'"
  shows "untouched_but (nat j) (jobs s) (jobs s')" "job_list (jobs s') ! nat j = job"
    "0 \<le> j" "nat j < length (job_list (jobs s))"
  using assms by (auto simp: put_job_def write_at_def untouched_but_def split: if_splits)

lemma record_pid_cells:
  assumes "record_pid cur command pid s = Inr s'"
  shows "untouched_but (nat cur) (jobs s) (jobs s')"
    "instruction (job_list (jobs s') ! nat cur) = instruction (job_list (jobs s) ! nat cur)"
    "job_size (job_list (jobs s') ! nat cur) = job_size (job_list (jobs s) ! nat cur)"
  using assms
  by (auto simp: record_pid_def get_job_def read_at_def split: sum.splits if_splits
           dest: put_job_cells)

lemma start_job_cells:
  assumes "start_job buffer n pid s = Inr s'"
  shows "untouched_but (nat (jobs_size (jobs s))) (jobs s) (jobs s')"
    "instruction (job_list (jobs s') ! nat (jobs_size (jobs s))) = buffer"
    "job_size (job_list (jobs s') ! nat (jobs_size (jobs s))) = n"
    "job_finished (job_list (jobs s') ! nat (jobs_size (jobs s))) = 0"
proof -
  from assms obtain currentJob ps s1 where
    put: "put_job (jobs_size (jobs s))
            (currentJob\<lparr>instruction := buffer, job_size := n, pids := ps, job_finished := 0\<rparr>) s
          = Inr s1"
    and s': "s' = s1\<lparr>jobs := (jobs s1)
               \<lparr>jobs_size := c_rem (jobs_size (jobs s1) + 1) MAXIMUM_JOB_LIST_SIZE\<rparr>\<rparr>"
    by (auto simp: start_job_def split: sum.splits)
  from put_job_cells(1) [OF put] show "untouched_but (nat (jobs_size (jobs s))) (jobs s) (jobs s')"
    by (simp add: s' untouched_but_def)
  from put_job_cells(2) [OF put]
  show "instruction (job_list (jobs s') ! nat (jobs_size (jobs s))) = buffer"
    "job_size (job_list (jobs s') ! nat (jobs_size (jobs s))) = n"
    "job_finished (job_list (jobs s') ! nat (jobs_size (jobs s))) = 0"
    by (simp_all add: s')
qed

lemma spawn_step_jobs:
  assumes "spawn_step line bg cur command p p2 s = Inr r"
  shows "untouched_but (nat cur) (jobs s) (jobs (snd (snd r)))"
    "jobs_size (jobs (snd (snd r))) = jobs_size (jobs s)"
    "instruction (job_list (jobs (snd (snd r))) ! nat cur) = instruction (job_list (jobs s) ! nat cur)"
    "job_size (job_list (jobs (snd (snd r))) ! nat cur) = job_size (job_list (jobs s) ! nat cur)"
    "\<not> bg \<Longrightarrow> jobs (snd (snd r)) = jobs s"
  using assms
  by (auto simp: spawn_step_def Let_def split: if_splits sum.splits
           dest: record_pid_cells record_pid_frame(5))

lemma spawn_step_background:
  assumes "spawn_step line True cur command p p2 s = Inr r"
  shows "\<exists>s2 s3 pid. jobs s2 = jobs s \<and> out s2 = out s \<and>
           record_pid cur command pid s2 = Inr s3 \<and>
           snd (snd r) = (if command = ncommands line - 1
                          then printf (Job_started (jobs_size (jobs s3)) pid) s3 else s3)"
proof -
  define piped where "piped = (if c_rem command 2 = 0 then pipe_sys p s else pipe_sys p2 s)"
  define p' where "p' = (if c_rem command 2 = 0 then fst piped else p)"
  define p2' where "p2' = (if c_rem command 2 = 0 then p2 else fst piped)"
  define forked where
    "forked = fork_sys (child_later (snd piped) line command (c_rem command 2 = 0)
                 (command = ncommands line - 1) p' p2') (snd piped)"
  define s2 where
    "s2 = parent_closes (c_rem command 2 = 0) (command = ncommands line - 1) p' p2' (snd forked)"
  have unfolded: "spawn_step line True cur command p p2 s =
      (case record_pid cur command (fst forked) s2 of
         Inl e \<Rightarrow> Inl e
       | Inr s3 \<Rightarrow>
           Inr (p', p2',
                if command = ncommands line - 1
                then printf (Job_started (jobs_size (jobs s3)) (fst forked)) s3 else s3))"
    unfolding spawn_step_def Let_def piped_def p'_def p2'_def forked_def s2_def
    by (simp cong: sum.case_cong if_cong)
  have frame: "jobs s2 = jobs s" "out s2 = out s"
    by (simp_all add: s2_def forked_def piped_def)
  from assms unfolded obtain s3 where "record_pid cur command (fst forked) s2 = Inr s3"
    and "snd (snd r) = (if command = ncommands line - 1
                        then printf (Job_started (jobs_size (jobs s3)) (fst forked)) s3 else s3)"
    by (auto split: sum.splits)
  with frame show ?thesis by blast
qed

lemma spawn_step_out:
  assumes "spawn_step line True cur command p p2 s = Inr r"
  shows "\<exists>pid. out (snd (snd r)) =
           (if command = ncommands line - 1
            then out s @ [Job_started (jobs_size (jobs s)) pid] else out s)"
proof -
  from spawn_step_background [OF assms] obtain s2 s3 pid where s2: "jobs s2 = jobs s" "out s2 = out s"
    and rec: "record_pid cur command pid s2 = Inr s3"
    and r: "snd (snd r) = (if command = ncommands line - 1
                           then printf (Job_started (jobs_size (jobs s3)) pid) s3 else s3)"
    by blast
  from record_pid_frame(2,5) [OF rec] s2 r show ?thesis
    by auto
qed

lemma spawn_loop_jobs:
  "spawn_loop line nxt bg cur command p p2 s = Inr s' \<Longrightarrow>
   untouched_but (nat cur) (jobs s) (jobs s') \<and> jobs_size (jobs s') = jobs_size (jobs s) \<and>
   instruction (job_list (jobs s') ! nat cur) = instruction (job_list (jobs s) ! nat cur) \<and>
   job_size (job_list (jobs s') ! nat cur) = job_size (job_list (jobs s) ! nat cur) \<and>
   (\<not> bg \<longrightarrow> jobs s' = jobs s)"
proof (induction line nxt bg cur command p p2 s rule: spawn_loop.induct)
  case (1 line nxt bg cur command p p2 s)
  show ?case
  proof (cases "nxt \<and> command < ncommands line")
    case True
    with "1.prems" obtain r where r: "spawn_step line bg cur command p p2 s = Inr r"
      and rest: "spawn_loop line nxt bg cur (command + 1) (fst r) (fst (snd r)) (snd (snd r)) = Inr s'"
      by (subst (asm) spawn_loop.simps) (auto split: sum.splits)
    from "1.IH" [OF True r rest] spawn_step_jobs [OF r] show ?thesis
      by (auto intro: untouched_but_trans)
  next
    case False
    with "1.prems" have "s' = s" by (subst (asm) spawn_loop.simps) auto
    then show ?thesis by simp
  qed
qed

lemma spawn_loop_out:
  "spawn_loop line nxt True cur command p p2 s = Inr s' \<Longrightarrow> nxt \<Longrightarrow> command < ncommands line \<Longrightarrow>
   \<exists>pid. out s' = out s @ [Job_started (jobs_size (jobs s)) pid]"
proof (induction line nxt "True" cur command p p2 s rule: spawn_loop.induct)
  case (1 line nxt cur command p p2 s)
  from "1.prems" obtain r where r: "spawn_step line True cur command p p2 s = Inr r"
    and rest: "spawn_loop line nxt True cur (command + 1) (fst r) (fst (snd r)) (snd (snd r)) = Inr s'"
    by (subst (asm) spawn_loop.simps) (auto split: sum.splits)
  have cond: "nxt \<and> command < ncommands line" using "1.prems" by simp
  obtain pid where o: "out (snd (snd r)) =
      (if command = ncommands line - 1 then out s @ [Job_started (jobs_size (jobs s)) pid] else out s)"
    using spawn_step_out [OF r] by blast
  show ?case
  proof (cases "command = ncommands line - 1")
    case True
    then have "s' = snd (snd r)" using rest by (subst (asm) spawn_loop.simps) auto
    with o True show ?thesis by auto
  next
    case False
    then have "command + 1 < ncommands line" using cond by simp
    from "1.hyps" [OF cond r rest \<open>nxt\<close> this] o False spawn_step_jobs(2) [OF r]
    show ?thesis by auto
  qed
qed


lemma spawn_first_background:
  assumes "spawn_first line buffer l s = Inr r" and "background line = 1"
  shows "\<exists>s2 s3 pid. jobs s2 = jobs s \<and> out s2 = out s \<and>
           start_job buffer (ncommands line) pid s2 = Inr s3 \<and>
           fst (snd r) = jobs_size (jobs s) \<and>
           snd (snd r) = (if \<not> ncommands line > 1
                          then printf (Job_started (jobs_size (jobs s3)) pid) s3 else s3)"
proof -
  define s1 where "s1 = store (l_stdinfd l) (l_stdoutfd l) (l_stderrfd l) (signal Ctrlc2 s)"
  define piped where "piped = (if ncommands line > 1 then pipe_sys (l_p l) s1 else (l_p l, s1))"
  define forked where
    "forked = fork_sys (child_first (snd piped) line (ncommands line > 1) (fst piped)) (snd piped)"
  define s2 where
    "s2 = restore (l_stdinfd l) (l_stdoutfd l) (l_stderrfd l) (close_fd (snd (fst piped)) (snd forked))"
  have unfolded: "spawn_first line buffer l s =
      (case start_job buffer (ncommands line) (fst forked) s2 of
         Inl e \<Rightarrow> Inl e
       | Inr s3 \<Rightarrow>
           Inr (fst piped, jobs_size (jobs s2),
                if \<not> ncommands line > 1
                then printf (Job_started (jobs_size (jobs s3)) (fst forked)) s3 else s3))"
    unfolding spawn_first_def Let_def s1_def piped_def forked_def s2_def
    using assms(2) by (simp cong: sum.case_cong if_cong)
  have frame: "jobs s2 = jobs s" "out s2 = out s"
    by (simp_all add: s2_def forked_def piped_def s1_def)
  from assms(1) unfolded obtain s3 where "start_job buffer (ncommands line) (fst forked) s2 = Inr s3"
    and "fst (snd r) = jobs_size (jobs s2)"
    and "snd (snd r) = (if \<not> ncommands line > 1
                        then printf (Job_started (jobs_size (jobs s3)) (fst forked)) s3 else s3)"
    by (auto split: sum.splits)
  with frame show ?thesis by force
qed

lemma executeExternalCommands_background:
  assumes run: "executeExternalCommands line buffer l s = Inr s'" and bg: "background line = 1"
  shows "untouched_but (nat (jobs_size (jobs s))) (jobs s) (jobs s')"
    and "jobs_size (jobs s') = c_rem (jobs_size (jobs s) + 1) MAXIMUM_JOB_LIST_SIZE"
    and "instruction (job_list (jobs s') ! nat (jobs_size (jobs s))) = buffer"
    and "\<exists>pid. out s' =
           out s @ [Job_started (c_rem (jobs_size (jobs s) + 1) MAXIMUM_JOB_LIST_SIZE) pid]"
proof -
  let ?cur = "jobs_size (jobs s)"
  let ?n = "c_rem (jobs_size (jobs s) + 1) MAXIMUM_JOB_LIST_SIZE"
  from run obtain r s5 where r: "spawn_first line buffer l s = Inr r"
    and loop: "spawn_loop line (ncommands line > 1) (background line = 1) (fst (snd r)) 1 (fst r)
        (l_p2 l) (snd (snd r)) = Inr s5"
    and s': "s' = signal Ctrlc (restore (l_stdinfd l) (l_stdoutfd l) (l_stderrfd l) s5)"
    by (auto simp: executeExternalCommands_def split: sum.splits)
  from spawn_first_background [OF r bg] obtain s2 s3 pid where s2: "jobs s2 = jobs s" "out s2 = out s"
    and start: "start_job buffer (ncommands line) pid s2 = Inr s3"
    and cur: "fst (snd r) = ?cur"
    and s4: "snd (snd r) = (if \<not> ncommands line > 1
                            then printf (Job_started (jobs_size (jobs s3)) pid) s3 else s3)"
    by blast
  have jobs4: "jobs (snd (snd r)) = jobs s3" and size3: "jobs_size (jobs s3) = ?n"
    and out3: "out s3 = out s"
    using s4 start_job_frame(2,6) [OF start] s2 by auto
  from spawn_loop_jobs [OF loop] cur jobs4
  have inv: "untouched_but (nat ?cur) (jobs s3) (jobs s5)" "jobs_size (jobs s5) = ?n"
    "instruction (job_list (jobs s5) ! nat ?cur) = instruction (job_list (jobs s3) ! nat ?cur)"
    by (simp_all add: size3)
  from start_job_cells(1) [OF start] inv(1) s2
  show "untouched_but (nat ?cur) (jobs s) (jobs s')"
    by (auto simp: s' intro: untouched_but_trans)
  show "jobs_size (jobs s') = ?n" by (simp add: s' inv(2))
  from start_job_cells(2) [OF start] inv(3) s2
  show "instruction (job_list (jobs s') ! nat ?cur) = buffer" by (simp add: s')
  show "\<exists>pid. out s' = out s @ [Job_started ?n pid]"
  proof (cases "ncommands line > 1")
    case True
    with s4 have "snd (snd r) = s3" by simp
    with spawn_loop_out [of line "ncommands line > 1" "fst (snd r)" 1 "fst r" "l_p2 l" "snd (snd r)" s5]
      loop bg True out3 size3
    show ?thesis by (auto simp: s')
  next
    case False
    with loop have "s5 = snd (snd r)" by (subst (asm) spawn_loop.simps) auto
    with s4 False out3 size3 show ?thesis by (auto simp: s')
  qed
qed

lemma executeExternalCommands_foreground_jobs:
  assumes "executeExternalCommands line buffer l s = Inr s'" and "background line \<noteq> 1"
  shows "jobs s' = jobs s"
proof -
  from assms(1) obtain r s5 where r: "spawn_first line buffer l s = Inr r"
    and loop: "spawn_loop line (ncommands line > 1) (background line = 1) (fst (snd r)) 1 (fst r)
        (l_p2 l) (snd (snd r)) = Inr s5"
    and s': "s' = signal Ctrlc (restore (l_stdinfd l) (l_stdoutfd l) (l_stderrfd l) s5)"
    by (auto simp: executeExternalCommands_def split: sum.splits)
  from r assms(2) have "jobs (snd (snd r)) = jobs s"
    by (auto simp: spawn_first_def Let_def)
  with spawn_loop_jobs [OF loop] assms(2) show ?thesis by (simp add: s')
qed

subsection \<open>Removal\<close>

lemma delete_loop_nth:
  "0 \<le> index \<Longrightarrow> nat jobsSize < length xs \<Longrightarrow>
   \<exists>xs'. delete_loop index jobsSize xs = Inr xs' \<and> length xs' = length xs \<and>
     (\<forall>i<length xs. xs' ! i = (if nat index \<le> i \<and> i < nat jobsSize then xs ! Suc i else xs ! i))"
proof (induction index jobsSize xs rule: delete_loop.induct)
  case (1 index jobsSize xs)
  show ?case
  proof (cases "index < jobsSize")
    case True
    let ?xs1 = "xs[nat index := xs ! nat (index + 1)]"
    have rd: "read_at xs (index + 1) = Inr (xs ! nat (index + 1))"
      using True "1.prems" by (auto simp: read_at_def)
    have wr: "write_at xs index (xs ! nat (index + 1)) = Inr ?xs1"
      using True "1.prems" by (auto simp: write_at_def)
    have "0 \<le> index + 1" "nat jobsSize < length ?xs1" using "1.prems" by simp_all
    from "1.IH" [OF True rd wr this] obtain xs' where
      xs': "delete_loop (index + 1) jobsSize ?xs1 = Inr xs'" "length xs' = length xs"
      and nth: "\<forall>i<length xs. xs' ! i =
          (if nat (index + 1) \<le> i \<and> i < nat jobsSize then ?xs1 ! Suc i else ?xs1 ! i)"
      by auto
    have "delete_loop index jobsSize xs = Inr xs'"
      using True rd wr xs'(1) by (subst delete_loop.simps) simp
    moreover have "\<forall>i<length xs. xs' ! i =
        (if nat index \<le> i \<and> i < nat jobsSize then xs ! Suc i else xs ! i)"
    proof (intro allI impI)
      fix i assume i: "i < length xs"
      have idx: "nat (index + 1) = Suc (nat index)" using "1.prems" by simp
      show "xs' ! i = (if nat index \<le> i \<and> i < nat jobsSize then xs ! Suc i else xs ! i)"
        using nth [rule_format, OF i] i True "1.prems" idx
        by (auto simp: nth_list_update)
    qed
    ultimately show ?thesis using xs'(2) by blast
  next
    case False
    then have "delete_loop index jobsSize xs = Inr xs" by (subst delete_loop.simps) simp
    moreover have "\<not> (nat index \<le> i \<and> i < nat jobsSize)" for i using False "1.prems" by auto
    ultimately show ?thesis by auto
  qed
qed


lemma c_rem_small: "0 \<le> a \<Longrightarrow> a < b \<Longrightarrow> c_rem a b = a"
  by (simp add: c_rem_def sgn_if)

lemma delete_shifts:
  assumes wf: "wf_registry js" and k: "0 \<le> k" "k < jobs_size js"
  shows "\<exists>js'. delete k js = Inr js' \<and> wf_registry js' \<and> jobs_size js' = jobs_size js - 1 \<and>
           visible js' = take (nat k) (visible js) @ drop (Suc (nat k)) (visible js)"
proof -
  from wf have len: "nat (jobs_size js) < length (job_list js)"
    by (auto simp: wf_registry_def)
  from delete_loop_nth [OF k(1) len] obtain xs' where
    xs': "delete_loop k (jobs_size js) (job_list js) = Inr xs'" "length xs' = length (job_list js)"
    and nth: "\<forall>i<length (job_list js). xs' ! i =
        (if nat k \<le> i \<and> i < nat (jobs_size js) then job_list js ! Suc i else job_list js ! i)"
    by blast
  have size: "c_rem (jobs_size js - 1) MAXIMUM_JOB_LIST_SIZE = jobs_size js - 1"
    using wf k by (intro c_rem_small) (auto simp: wf_registry_def)
  let ?js' = "\<lparr>job_list = xs', jobs_size = jobs_size js - 1\<rparr>"
  have del: "delete k js = Inr ?js'"
    by (simp add: delete_def xs'(1) size)
  have wf': "wf_registry ?js'"
    using wf k xs'(2) by (auto simp: wf_registry_def)
  have "visible ?js' = take (nat k) (visible js) @ drop (Suc (nat k)) (visible js)"
  proof (rule nth_equalityI)
    show "length (visible ?js') =
        length (take (nat k) (visible js) @ drop (Suc (nat k)) (visible js))"
      using k len xs'(2) by (auto simp: visible_def)
  next
    fix i assume "i < length (visible ?js')"
    then have i: "i < nat (jobs_size js - 1)" by (simp add: visible_def)
    with len have i': "i < length (job_list js)" "Suc i < length (job_list js)" by auto
    show "visible ?js' ! i = (take (nat k) (visible js) @ drop (Suc (nat k)) (visible js)) ! i"
      using i i' k len nth [rule_format, OF i'(1)]
      by (auto simp: visible_def nth_append)
  qed
  with del wf' show ?thesis by auto
qed


subsection \<open>Foreground promotion\<close>

lemma eprintf_frame [simp]:
  "trace (eprintf m s) = trace s" "jobs (eprintf m s) = jobs s" "out (eprintf m s) = out s"
  "err (eprintf m s) = err s @ [m]" "sigint (eprintf m s) = sigint s"
  by (simp_all add: eprintf_def)

lemma mshfg_arg_sigint:
  assumes "mshfg_arg job s = Inr s'"
  shows "sigint s' = Ctrlc \<or> (trace s' = trace s \<and> sigint s' = sigint s)"
  using assms
  by (auto simp: mshfg_arg_def Let_def split: if_splits sum.splits prod.splits)

lemma mshfg_sigint:
  assumes "mshfg job s = Inr s'"
  shows "sigint s' = Ctrlc \<or> (trace s' = trace s \<and> sigint s' = sigint s)"
  using assms by (auto simp: mshfg_def split: option.splits dest: mshfg_arg_sigint)




subsection \<open>A background pipeline that fits the arrays is started without a fault\<close>

lemma record_pid_returns:
  assumes "room_for n cur (jobs s)" and "0 \<le> command" and "command < n"
  shows "\<exists>s'. record_pid cur command pid s = Inr s' \<and> room_for n cur (jobs s')"
  using assms
  by (auto simp: room_for_def record_pid_def get_job_def put_job_def read_at_def write_at_def)

lemma start_job_returns:
  assumes "room_for n (jobs_size (jobs s)) (jobs s)"
  shows "\<exists>s'. start_job buffer m pid s = Inr s' \<and> room_for n (jobs_size (jobs s)) (jobs s')"
  using assms
  by (auto simp: room_for_def start_job_def get_job_def put_job_def read_at_def write_at_def)

lemma room_for_frame [simp]:
  "room_for n cur (jobs (printf m s)) = room_for n cur (jobs s)"
  by simp

lemma spawn_step_returns:
  assumes "room_for (ncommands line) cur (jobs s)" and "0 \<le> command" and "command < ncommands line"
  shows "\<exists>r. spawn_step line True cur command p p2 s = Inr r \<and>
           room_for (ncommands line) cur (jobs (snd (snd r)))"
proof -
  define piped where "piped = (if c_rem command 2 = 0 then pipe_sys p s else pipe_sys p2 s)"
  define p' where "p' = (if c_rem command 2 = 0 then fst piped else p)"
  define p2' where "p2' = (if c_rem command 2 = 0 then p2 else fst piped)"
  define forked where
    "forked = fork_sys (child_later (snd piped) line command (c_rem command 2 = 0)
                 (command = ncommands line - 1) p' p2') (snd piped)"
  define s2 where
    "s2 = parent_closes (c_rem command 2 = 0) (command = ncommands line - 1) p' p2' (snd forked)"
  have unfolded: "spawn_step line True cur command p p2 s =
      (case record_pid cur command (fst forked) s2 of
         Inl e \<Rightarrow> Inl e
       | Inr s3 \<Rightarrow>
           Inr (p', p2',
                if command = ncommands line - 1
                then printf (Job_started (jobs_size (jobs s3)) (fst forked)) s3 else s3))"
    unfolding spawn_step_def Let_def piped_def p'_def p2'_def forked_def s2_def
    by (simp cong: sum.case_cong if_cong)
  have "jobs s2 = jobs s"
    by (simp add: s2_def forked_def piped_def)
  with assms(1) have "room_for (ncommands line) cur (jobs s2)" by simp
  from record_pid_returns [OF this assms(2,3)] obtain s3 where
    "record_pid cur command (fst forked) s2 = Inr s3" "room_for (ncommands line) cur (jobs s3)"
    by blast
  with unfolded show ?thesis by auto
qed

lemma spawn_loop_returns:
  "room_for (ncommands line) cur (jobs s) \<Longrightarrow> 0 \<le> command \<Longrightarrow>
   \<exists>s'. spawn_loop line nxt True cur command p p2 s = Inr s'"
proof (induction line nxt "True" cur command p p2 s rule: spawn_loop.induct)
  case (1 line nxt cur command p p2 s)
  show ?case
  proof (cases "nxt \<and> command < ncommands line")
    case True
    from spawn_step_returns [OF "1.prems"(1,2), of p p2] True obtain r where
      r: "spawn_step line True cur command p p2 s = Inr r"
      and room: "room_for (ncommands line) cur (jobs (snd (snd r)))"
      by blast
    from "1.hyps" [OF True r room] "1.prems"(2) True r show ?thesis
      by (subst spawn_loop.simps) simp
  next
    case False
    then show ?thesis by (subst spawn_loop.simps) auto
  qed
qed

lemma executeExternalCommands_background_returns:
  assumes bg: "background line = 1"
    and room: "room_for (ncommands line) (jobs_size (jobs s)) (jobs s)"
  shows "\<exists>s'. executeExternalCommands line buffer l s = Inr s'"
proof -
  define s1 where "s1 = store (l_stdinfd l) (l_stdoutfd l) (l_stderrfd l) (signal Ctrlc2 s)"
  define piped where "piped = (if ncommands line > 1 then pipe_sys (l_p l) s1 else (l_p l, s1))"
  define forked where
    "forked = fork_sys (child_first (snd piped) line (ncommands line > 1) (fst piped)) (snd piped)"
  define s2 where
    "s2 = restore (l_stdinfd l) (l_stdoutfd l) (l_stderrfd l) (close_fd (snd (fst piped)) (snd forked))"
  have unfolded: "spawn_first line buffer l s =
      (case start_job buffer (ncommands line) (fst forked) s2 of
         Inl e \<Rightarrow> Inl e
       | Inr s3 \<Rightarrow>
           Inr (fst piped, jobs_size (jobs s2),
                if \<not> ncommands line > 1
                then printf (Job_started (jobs_size (jobs s3)) (fst forked)) s3 else s3))"
    unfolding spawn_first_def Let_def s1_def piped_def forked_def s2_def
    using bg by (simp cong: sum.case_cong if_cong)
  have frame: "jobs s2 = jobs s"
    by (simp add: s2_def forked_def piped_def s1_def)
  with room have "room_for (ncommands line) (jobs_size (jobs s2)) (jobs s2)" by simp
  from start_job_returns [OF this] obtain s3 where
    s3: "start_job buffer (ncommands line) (fst forked) s2 = Inr s3"
    and room3: "room_for (ncommands line) (jobs_size (jobs s2)) (jobs s3)"
    by blast
  define s4 where "s4 = (if \<not> ncommands line > 1
      then printf (Job_started (jobs_size (jobs s3)) (fst forked)) s3 else s3)"
  have first: "spawn_first line buffer l s = Inr (fst piped, jobs_size (jobs s2), s4)"
    by (simp add: unfolded s3 s4_def)
  have "room_for (ncommands line) (jobs_size (jobs s2)) (jobs s4)"
    using room3 by (simp add: s4_def)
  from spawn_loop_returns [OF this, of 1 "ncommands line > 1" "fst piped" "l_p2 l"]
  obtain s5 where "spawn_loop line (ncommands line > 1) True (jobs_size (jobs s2)) 1 (fst piped)
      (l_p2 l) s4 = Inr s5"
    by auto
  with first bg show ?thesis
    by (simp add: executeExternalCommands_def)
qed

subsection \<open>A latched job is not polled\<close>

lemma finished_latched:
  "get_job j s = Inr job \<Longrightarrow> job_finished job = 1 \<Longrightarrow> finished j s = Inr (1, s)"
  by (simp add: finished_def)

subsection \<open>\<^verbatim>\<open>mshfg\<close> on a registry whose jobs fit their arrays\<close>

lemma finished_loop_returns:
  "0 \<le> j \<Longrightarrow> nat j < length (job_list (jobs s)) \<Longrightarrow>
   jobSize \<le> int (length (pids (job_list (jobs s) ! nat j))) \<Longrightarrow> 0 \<le> index \<Longrightarrow>
   \<exists>r s'. finished_loop j jobSize index s = Inr (r, s') \<and> same_shape j (jobs s) (jobs s')"
proof (induction j jobSize index s rule: finished_loop.induct)
  case (1 j jobSize index s)
  let ?job = "job_list (jobs s) ! nat j"
  have get: "get_job j s = Inr ?job"
    using "1.prems" by (simp add: get_job_def read_at_def)
  show ?case
  proof (cases "index < jobSize")
    case True
    let ?pid = "pids ?job ! nat index"
    have rd: "read_at (pids ?job) index = Inr ?pid"
      using True "1.prems" by (auto simp: read_at_def)
    show ?thesis
    proof (cases "fst (waitpid_sys ?pid True s) \<noteq> ?pid")
      case True
      with \<open>index < jobSize\<close> get rd show ?thesis
        by (subst finished_loop.simps) (simp add: same_shape_def)
    next
      case False
      let ?s1 = "snd (waitpid_sys ?pid True s)"
      have "\<exists>r s'. finished_loop j jobSize (index + 1) ?s1 = Inr (r, s') \<and>
          same_shape j (jobs ?s1) (jobs s')"
        using "1.IH" [OF \<open>index < jobSize\<close> get rd False] "1.prems" by simp
      with \<open>index < jobSize\<close> get rd False show ?thesis
        by (subst finished_loop.simps) simp
    qed
  next
    case False
    with get "1.prems" show ?thesis
      by (subst finished_loop.simps)
         (auto simp: put_job_def write_at_def same_shape_def)
  qed
qed

lemma fg_wait_loop_returns:
  "0 \<le> j \<Longrightarrow> nat j < length (job_list (jobs s)) \<Longrightarrow>
   jobSize \<le> int (length (pids (job_list (jobs s) ! nat j))) \<Longrightarrow> 0 \<le> index \<Longrightarrow>
   \<exists>s'. fg_wait_loop j jobSize index s = Inr s' \<and> jobs s' = jobs s"
proof (induction j jobSize index s rule: fg_wait_loop.induct)
  case (1 j jobSize index s)
  let ?job = "job_list (jobs s) ! nat j"
  have get: "get_job j s = Inr ?job"
    using "1.prems" by (simp add: get_job_def read_at_def)
  show ?case
  proof (cases "index < jobSize")
    case True
    let ?pid = "pids ?job ! nat index"
    have rd: "read_at (pids ?job) index = Inr ?pid"
      using True "1.prems" by (auto simp: read_at_def)
    have "\<exists>s'. fg_wait_loop j jobSize (index + 1) (snd (waitpid_sys ?pid False s)) = Inr s' \<and>
        jobs s' = jobs (snd (waitpid_sys ?pid False s))"
      using "1.IH" [OF True get rd] "1.prems" by simp
    with True get rd show ?thesis
      by (subst fg_wait_loop.simps) simp
  next
    case False
    then show ?thesis by (subst fg_wait_loop.simps) simp
  qed
qed

lemma finished_returns:
  assumes "0 \<le> j" and "nat j < length (job_list (jobs s))"
    and "job_size (job_list (jobs s) ! nat j) \<le> int (length (pids (job_list (jobs s) ! nat j)))"
  shows "\<exists>r s'. finished j s = Inr (r, s') \<and> same_shape j (jobs s) (jobs s')"
proof -
  have get: "get_job j s = Inr (job_list (jobs s) ! nat j)"
    using assms by (simp add: get_job_def read_at_def)
  show ?thesis
  proof (cases "job_finished (job_list (jobs s) ! nat j) = 1")
    case True
    with get show ?thesis by (simp add: finished_def same_shape_def)
  next
    case False
    with get finished_loop_returns [OF assms(1,2,3), of 0] show ?thesis
      by (simp add: finished_def)
  qed
qed

lemma mshfg_arg_returns:
  assumes "fits (jobs u)"
  shows "\<exists>t. mshfg_arg job u = Inr t"
proof (cases "jobs_size (jobs u) = 0 \<or> to_int32 (atoi job - 1) < 0 \<or>
    to_int32 (atoi job - 1) > jobs_size (jobs u) - 1")
  case True
  then show ?thesis by (auto simp: mshfg_arg_def Let_def)
next
  case False
  let ?m = "to_int32 (atoi job - 1)"
  let ?s1 = "signal SIG_IGN u"
  from False have m: "0 \<le> ?m" "?m < jobs_size (jobs u)" by auto
  from assms have wf: "wf_registry (jobs u)" by (simp add: fits_def)
  then have len: "nat (jobs_size (jobs u)) < length (job_list (jobs u))"
    by (auto simp: wf_registry_def)
  have in_range: "nat ?m < length (job_list (jobs ?s1))" using m len by simp
  have fit: "job_size (job_list (jobs ?s1) ! nat ?m) \<le> int (length (pids (job_list (jobs ?s1) ! nat ?m)))"
    using assms m by (simp add: fits_def)
  from finished_returns [OF m(1) in_range fit] obtain r s2 where
    fin: "finished ?m ?s1 = Inr (r, s2)" and shape: "same_shape ?m (jobs u) (jobs s2)"
    by auto
  let ?ranJob = "job_list (jobs s2) ! nat ?m"
  have in_range2: "nat ?m < length (job_list (jobs s2))"
    using in_range shape by (simp add: same_shape_def)
  have get: "get_job ?m s2 = Inr ?ranJob"
    using m(1) in_range2 by (simp add: get_job_def read_at_def)
  have fit2: "job_size ?ranJob \<le> int (length (pids ?ranJob))"
    using fit shape by (simp add: same_shape_def)
  have wf2: "wf_registry (jobs s2)" "?m < jobs_size (jobs s2)"
    using wf m shape by (simp_all add: same_shape_def wf_registry_def)
  have "\<exists>s3. (if r \<noteq> 0
           then Inr (printf (Fg_done job (instruction ?ranJob)) (printf Fg_terminated s2))
           else fg_wait_loop ?m (job_size ?ranJob) 0
                  (printf (Fg_instruction (instruction ?ranJob)) s2)) = Inr s3 \<and>
         jobs s3 = jobs s2"
    using fg_wait_loop_returns [of ?m "printf (Fg_instruction (instruction ?ranJob)) s2"
        "job_size ?ranJob" 0] m(1) in_range2 fit2
    by auto
  then obtain s3 where s3: "(if r \<noteq> 0
           then Inr (printf (Fg_done job (instruction ?ranJob)) (printf Fg_terminated s2))
           else fg_wait_loop ?m (job_size ?ranJob) 0
                  (printf (Fg_instruction (instruction ?ranJob)) s2)) = Inr s3"
    and jobs3: "jobs s3 = jobs s2"
    by blast
  from delete_shifts [of "jobs s3" ?m] wf2 m(1) jobs3 obtain js where
    "delete ?m (jobs s3) = Inr js" by auto
  with False fin get s3 show ?thesis
    by (simp add: mshfg_arg_def Let_def)
qed

lemma mshfg_returns: "fits (jobs u) \<Longrightarrow> \<exists>t. mshfg job u = Inr t"
  by (auto simp: mshfg_def split: option.splits intro: mshfg_arg_returns)


subsection \<open>The standard streams when the never-assigned locals name no descriptor\<close>

text \<open>If the three snapshot locals hold negative numbers and the four words of \<^verbatim>\<open>p\<close> and
  \<^verbatim>\<open>p2\<close> hold numbers other than 0, 1 and 2, every \<^verbatim>\<open>dup2\<close> of \<^verbatim>\<open>store\<close> and \<^verbatim>\<open>restore\<close>
  fails, and a call that returns leaves the standard streams bound as they were.\<close>

lemma keeps_streams_refl: "streams_open s \<Longrightarrow> keeps_streams s s"
  by (simp add: keeps_streams_def)

lemma keeps_streams_trans:
  "keeps_streams s s' \<Longrightarrow> keeps_streams s' s'' \<Longrightarrow> keeps_streams s s''"
  by (simp add: keeps_streams_def)

lemma keeps_streams_open: "keeps_streams s s' \<Longrightarrow> streams_open s'"
  by (simp add: keeps_streams_def)

lemma lowest_free_is_free:
  "lowest_free t n fd = Some r \<Longrightarrow> t r = None \<and> fd \<le> r"
proof (induction n arbitrary: fd)
  case 0
  then show ?case by simp
next
  case (Suc n)
  show ?case
  proof (cases "t fd = None")
    case True
    with Suc.prems show ?thesis by simp
  next
    case False
    with Suc.prems have "lowest_free t n (fd + 1) = Some r" by simp
    from Suc.IH [OF this] show ?thesis by simp
  qed
qed

lemma close_fd_keeps: "streams_open s \<Longrightarrow> safe_fd x \<Longrightarrow> keeps_streams s (close_fd x s)"
  by (auto simp: keeps_streams_def streams_open_def close_fd_def close_fdt_def safe_fd_def)

lemma dup2_onto_safe_keeps:
  "streams_open s \<Longrightarrow> safe_fd x \<Longrightarrow> keeps_streams s (dup2 a x s)"
  by (auto simp: keeps_streams_def streams_open_def dup2_def dup2_fdt_def safe_fd_def
           split: option.splits)

lemma dup2_from_negative_keeps:
  "streams_open s \<Longrightarrow> x < 0 \<Longrightarrow> dup2 x b s = s"
  by (simp add: streams_open_def dup2_def dup2_fdt_def)

lemma dup2_onto_negative_keeps:
  "x < 0 \<Longrightarrow> dup2 a x s = s"
  by (simp add: dup2_def dup2_fdt_def split: option.splits)

lemma store_negative: "a < 0 \<Longrightarrow> b < 0 \<Longrightarrow> c < 0 \<Longrightarrow> store a b c s = s"
  by (simp add: store_def dup2_onto_negative_keeps)

lemma restore_negative:
  "streams_open s \<Longrightarrow> a < 0 \<Longrightarrow> b < 0 \<Longrightarrow> c < 0 \<Longrightarrow> restore a b c s = s"
  by (simp add: restore_def dup2_from_negative_keeps)

lemma fdt_frame [simp]:
  "fdt (signal h s) = fdt s" "fdt (printf m s) = fdt s"
  "fdt (snd (fork_sys img s)) = fdt s" "fdt (snd (wait_sys s)) = fdt s"
  by (simp_all add: signal_def printf_def fork_sys_def wait_sys_def waitpid_sys_def reap_def Let_def
        split: list.splits option.splits)

lemma streams_open_frame [simp]:
  "streams_open (signal h s) = streams_open s" "streams_open (printf m s) = streams_open s"
  "streams_open (snd (fork_sys img s)) = streams_open s"
  "streams_open (snd (wait_sys s)) = streams_open s"
  by (simp_all add: streams_open_def)

lemma keeps_streams_frame [simp]:
  "keeps_streams s (signal h s') = keeps_streams s s'"
  "keeps_streams s (printf m s') = keeps_streams s s'"
  "keeps_streams s (snd (fork_sys img s')) = keeps_streams s s'"
  "keeps_streams s (snd (wait_sys s')) = keeps_streams s s'"
  by (simp_all add: keeps_streams_def)

lemma keeps_streams_fdt: "keeps_streams s s2 \<Longrightarrow> fdt s3 = fdt s2 \<Longrightarrow> keeps_streams s s3"
  unfolding keeps_streams_def streams_open_def by metis

lemma put_job_fdt: "put_job j job s = Inr s' \<Longrightarrow> fdt s' = fdt s"
  by (auto simp: put_job_def split: sum.splits)

lemma record_pid_fdt: "record_pid cur command pid s = Inr s' \<Longrightarrow> fdt s' = fdt s"
  by (auto simp: record_pid_def split: sum.splits dest: put_job_fdt)

lemma start_job_fdt: "start_job buffer n pid s = Inr s' \<Longrightarrow> fdt s' = fdt s"
  by (auto simp: start_job_def split: sum.splits dest: put_job_fdt)

lemma pipe_sys_keeps:
  assumes "streams_open s" and "safe_pair p"
  shows "safe_pair (fst (pipe_sys p s)) \<and> keeps_streams s (snd (pipe_sys p s))"
proof (cases "fails s (length (trace s))")
  case True
  with assms show ?thesis
    by (simp add: pipe_sys_def Let_def keeps_streams_def streams_open_def)
next
  case False
  show ?thesis
  proof (cases "lowest_free (fdt s) (nofile s) 0")
    case None
    with False assms show ?thesis
      by (simp add: pipe_sys_def Let_def keeps_streams_def streams_open_def)
  next
    case (Some r)
    then have r: "fdt s r = None" "0 \<le> r" using lowest_free_is_free by blast+
    with assms(1) have r3: "3 \<le> r"
      by (cases "r = 0 \<or> r = 1 \<or> r = 2") (auto simp: streams_open_def)
    show ?thesis
    proof (cases "lowest_free ((fdt s)(r \<mapsto> Pipe_read (length (trace s)))) (nofile s) 0")
      case None
      with False Some assms show ?thesis
        by (simp add: pipe_sys_def Let_def keeps_streams_def streams_open_def)
    next
      case (Some w)
      then have w: "((fdt s)(r \<mapsto> Pipe_read (length (trace s)))) w = None" "0 \<le> w"
        using lowest_free_is_free by blast+
      with assms(1) r3 have w3: "3 \<le> w"
        by (cases "w = 0 \<or> w = 1 \<or> w = 2") (auto simp: streams_open_def split: if_splits)
      from False \<open>lowest_free (fdt s) (nofile s) 0 = Some r\<close> Some r3 w3 assms(1)
      show ?thesis
        by (auto simp: pipe_sys_def Let_def keeps_streams_def streams_open_def safe_pair_def
              safe_fd_def)
    qed
  qed
qed

lemma parent_closes_keeps:
  assumes "streams_open s" and "safe_pair p" and "safe_pair p2"
  shows "keeps_streams s (parent_closes e l p p2 s)"
proof -
  have step: "keeps_streams s (close_fd y (close_fd x (dup2 STDIN_FILENO x s)))"
    if "safe_fd x" "safe_fd y" for x y
  proof -
    have a: "keeps_streams s (dup2 STDIN_FILENO x s)"
      using assms(1) that(1) by (rule dup2_onto_safe_keeps)
    have b: "keeps_streams (dup2 STDIN_FILENO x s) (close_fd x (dup2 STDIN_FILENO x s))"
      using keeps_streams_open [OF a] that(1) by (rule close_fd_keeps)
    have c: "keeps_streams (close_fd x (dup2 STDIN_FILENO x s))
        (close_fd y (close_fd x (dup2 STDIN_FILENO x s)))"
      using keeps_streams_open [OF b] that(2) by (rule close_fd_keeps)
    from a b c show ?thesis by (blast intro: keeps_streams_trans)
  qed
  have more: "keeps_streams s (close_fd y (close_fd x s1))"
    if "keeps_streams s s1" "safe_fd x" "safe_fd y" for x y s1
  proof -
    have b: "keeps_streams s1 (close_fd x s1)"
      using keeps_streams_open [OF that(1)] that(2) by (rule close_fd_keeps)
    have c: "keeps_streams (close_fd x s1) (close_fd y (close_fd x s1))"
      using keeps_streams_open [OF b] that(3) by (rule close_fd_keeps)
    from that(1) b c show ?thesis by (blast intro: keeps_streams_trans)
  qed
  from assms(2,3) have safe: "safe_fd (fst p)" "safe_fd (snd p)" "safe_fd (fst p2)" "safe_fd (snd p2)"
    by (simp_all add: safe_pair_def)
  show ?thesis
    using step [OF safe(2) safe(3)] step [OF safe(4) safe(1)]
      more [OF step [OF safe(2) safe(3)] safe(1) safe(4)]
      more [OF step [OF safe(4) safe(1)] safe(3) safe(2)]
    by (simp add: parent_closes_def Let_def)
qed

lemma spawn_step_keeps:
  assumes "spawn_step line bg cur command p p2 s = Inr r"
    and "streams_open s" and "safe_pair p" and "safe_pair p2"
  shows "safe_pair (fst r) \<and> safe_pair (fst (snd r)) \<and> keeps_streams s (snd (snd r))"
proof -
  define piped where "piped = (if c_rem command 2 = 0 then pipe_sys p s else pipe_sys p2 s)"
  define p' where "p' = (if c_rem command 2 = 0 then fst piped else p)"
  define p2' where "p2' = (if c_rem command 2 = 0 then p2 else fst piped)"
  define forked where
    "forked = fork_sys (child_later (snd piped) line command (c_rem command 2 = 0)
                 (command = ncommands line - 1) p' p2') (snd piped)"
  define s2 where
    "s2 = parent_closes (c_rem command 2 = 0) (command = ncommands line - 1) p' p2' (snd forked)"
  have unfolded: "spawn_step line bg cur command p p2 s =
      (if bg
       then (case record_pid cur command (fst forked) s2 of
               Inl e \<Rightarrow> Inl e
             | Inr s3 \<Rightarrow>
                 Inr (p', p2',
                      if command = ncommands line - 1
                      then printf (Job_started (jobs_size (jobs s3)) (fst forked)) s3 else s3))
       else Inr (p', p2', snd (wait_sys s2)))"
    unfolding spawn_step_def Let_def piped_def p'_def p2'_def forked_def s2_def
    by (simp cong: sum.case_cong if_cong)
  have piped: "safe_pair (fst piped) \<and> keeps_streams s (snd piped)"
    using pipe_sys_keeps [OF assms(2,3)] pipe_sys_keeps [OF assms(2,4)] by (simp add: piped_def)
  then have safe: "safe_pair p'" "safe_pair p2'"
    using assms(3,4) by (simp_all add: p'_def p2'_def)
  have forked: "keeps_streams s (snd forked)"
    using piped by (simp add: forked_def)
  have "keeps_streams (snd forked) s2"
    unfolding s2_def using keeps_streams_open [OF forked] safe by (rule parent_closes_keeps)
  with forked have s2: "keeps_streams s s2" by (rule keeps_streams_trans)
  have "keeps_streams s (snd (snd r))"
  proof (cases bg)
    case True
    with assms(1) unfolded obtain s3 where rec: "record_pid cur command (fst forked) s2 = Inr s3"
      and r: "snd (snd r) = (if command = ncommands line - 1
                then printf (Job_started (jobs_size (jobs s3)) (fst forked)) s3 else s3)"
      by (auto split: sum.splits)
    from s2 record_pid_fdt [OF rec] have "keeps_streams s s3" by (rule keeps_streams_fdt)
    with r show ?thesis by simp
  next
    case False
    with assms(1) unfolded have "snd (snd r) = snd (wait_sys s2)" by auto
    with s2 show ?thesis by simp
  qed
  moreover from assms(1) unfolded have "fst r = p'" "fst (snd r) = p2'"
    by (auto split: sum.splits if_splits)
  ultimately show ?thesis using safe by simp
qed

lemma spawn_loop_keeps:
  "spawn_loop line nxt bg cur command p p2 s = Inr s' \<Longrightarrow> streams_open s \<Longrightarrow>
   safe_pair p \<Longrightarrow> safe_pair p2 \<Longrightarrow> keeps_streams s s'"
proof (induction line nxt bg cur command p p2 s rule: spawn_loop.induct)
  case (1 line nxt bg cur command p p2 s)
  show ?case
  proof (cases "nxt \<and> command < ncommands line")
    case True
    with "1.prems"(1) obtain r where r: "spawn_step line bg cur command p p2 s = Inr r"
      and rest: "spawn_loop line nxt bg cur (command + 1) (fst r) (fst (snd r)) (snd (snd r)) = Inr s'"
      by (subst (asm) spawn_loop.simps) (auto split: sum.splits)
    from spawn_step_keeps [OF r "1.prems"(2,3,4)]
    have step: "safe_pair (fst r)" "safe_pair (fst (snd r))" "keeps_streams s (snd (snd r))"
      by simp_all
    from "1.IH" [OF True r rest keeps_streams_open [OF step(3)] step(1,2)] step(3)
    show ?thesis by (blast intro: keeps_streams_trans)
  next
    case False
    with "1.prems"(1) have "s' = s" by (subst (asm) spawn_loop.simps) auto
    with "1.prems"(2) show ?thesis by (simp add: keeps_streams_refl)
  qed
qed

lemma spawn_first_keeps:
  assumes "spawn_first line buffer l s = Inr r" and "streams_open s" and "harmless_frame l"
  shows "safe_pair (fst r) \<and> keeps_streams s (snd (snd r))"
proof -
  define s1 where "s1 = store (l_stdinfd l) (l_stdoutfd l) (l_stderrfd l) (signal Ctrlc2 s)"
  define piped where "piped = (if ncommands line > 1 then pipe_sys (l_p l) s1 else (l_p l, s1))"
  define forked where
    "forked = fork_sys (child_first (snd piped) line (ncommands line > 1) (fst piped)) (snd piped)"
  define s2 where
    "s2 = restore (l_stdinfd l) (l_stdoutfd l) (l_stderrfd l) (close_fd (snd (fst piped)) (snd forked))"
  have unfolded: "spawn_first line buffer l s =
      (if background line = 1
       then (case start_job buffer (ncommands line) (fst forked) s2 of
               Inl e \<Rightarrow> Inl e
             | Inr s3 \<Rightarrow>
                 Inr (fst piped, jobs_size (jobs s2),
                      if \<not> ncommands line > 1
                      then printf (Job_started (jobs_size (jobs s3)) (fst forked)) s3 else s3))
       else Inr (fst piped, jobs_size (jobs s2), snd (wait_sys s2)))"
    unfolding spawn_first_def Let_def s1_def piped_def forked_def s2_def
    by (simp cong: sum.case_cong if_cong)
  from assms(3) have neg: "l_stdinfd l < 0" "l_stdoutfd l < 0" "l_stderrfd l < 0"
    and safe: "safe_pair (l_p l)"
    by (simp_all add: harmless_frame_def)
  have s1: "keeps_streams s s1"
    using assms(2) by (simp add: s1_def store_negative [OF neg] keeps_streams_refl)
  have piped: "safe_pair (fst piped) \<and> keeps_streams s1 (snd piped)"
    using pipe_sys_keeps [OF keeps_streams_open [OF s1] safe] keeps_streams_open [OF s1] safe
    by (simp add: piped_def keeps_streams_refl)
  with s1 have forked: "keeps_streams s (snd forked)"
    by (auto simp: forked_def intro: keeps_streams_trans)
  have closed: "keeps_streams (snd forked) (close_fd (snd (fst piped)) (snd forked))"
    using keeps_streams_open [OF forked] piped by (intro close_fd_keeps) (simp_all add: safe_pair_def)
  have "s2 = close_fd (snd (fst piped)) (snd forked)"
    unfolding s2_def using keeps_streams_open [OF closed] neg by (rule restore_negative)
  with forked closed have s2: "keeps_streams s s2" by (auto intro: keeps_streams_trans)
  have "keeps_streams s (snd (snd r))"
  proof (cases "background line = 1")
    case True
    with assms(1) unfolded obtain s3 where start: "start_job buffer (ncommands line) (fst forked) s2 = Inr s3"
      and r: "snd (snd r) = (if \<not> ncommands line > 1
                then printf (Job_started (jobs_size (jobs s3)) (fst forked)) s3 else s3)"
      by (auto split: sum.splits)
    from s2 start_job_fdt [OF start] have "keeps_streams s s3" by (rule keeps_streams_fdt)
    with r show ?thesis by simp
  next
    case False
    with assms(1) unfolded have "snd (snd r) = snd (wait_sys s2)" by auto
    with s2 show ?thesis by simp
  qed
  moreover from assms(1) unfolded have "fst r = fst piped"
    by (auto split: sum.splits if_splits)
  ultimately show ?thesis using piped by simp
qed

lemma executeExternalCommands_keeps_streams:
  assumes "executeExternalCommands line buffer l s = Inr s'"
    and "streams_open s" and "harmless_frame l"
  shows "stream_bindings s' = stream_bindings s"
proof -
  from assms(1) obtain r s5 where r: "spawn_first line buffer l s = Inr r"
    and loop: "spawn_loop line (ncommands line > 1) (background line = 1) (fst (snd r)) 1 (fst r)
        (l_p2 l) (snd (snd r)) = Inr s5"
    and s': "s' = signal Ctrlc (restore (l_stdinfd l) (l_stdoutfd l) (l_stderrfd l) s5)"
    by (auto simp: executeExternalCommands_def split: sum.splits)
  from assms(3) have neg: "l_stdinfd l < 0" "l_stdoutfd l < 0" "l_stderrfd l < 0"
    and safe2: "safe_pair (l_p2 l)"
    by (simp_all add: harmless_frame_def)
  from spawn_first_keeps [OF r assms(2,3)]
  have first: "safe_pair (fst r)" "keeps_streams s (snd (snd r))" by simp_all
  from spawn_loop_keeps [OF loop keeps_streams_open [OF first(2)] first(1) safe2] first(2)
  have s5: "keeps_streams s s5" by (blast intro: keeps_streams_trans)
  have "restore (l_stdinfd l) (l_stdoutfd l) (l_stderrfd l) s5 = s5"
    using keeps_streams_open [OF s5] neg by (rule restore_negative)
  with s5 show ?thesis
    by (simp add: s' stream_bindings_def keeps_streams_def signal_def
          STDIN_FILENO_def STDOUT_FILENO_def STDERR_FILENO_def)
qed

lemma shell0_streams_open: "streams_open shell0"
  by (simp add: streams_open_def shell0_def)

lemma ones_frame_harmless: "harmless_frame ones_frame"
  by (simp add: harmless_frame_def ones_frame_def safe_pair_def safe_fd_def)

lemma streams_kept_at_negative_frame:
  "on_return stream_bindings
     (executeExternalCommands (pipeline [''a'', ''b''] 0) ''a | b'' ones_frame shell0) =
   Inr (stream_bindings shell0)"
  by code_simp

subsection \<open>Pipes created and calls of \<^verbatim>\<open>pipe\<close> that failed\<close>

text \<open>No operation of the shell removes a call from the trace; a call of \<^verbatim>\<open>pipe\<close> either
  created a pipe or failed.\<close>

lemma calls_of_frame [simp]:
  "calls_of P (dup2 a b s) = calls_of P s"
  "calls_of P (close_fd a s) = calls_of P s"
  "calls_of P (signal h s) = calls_of P s"
  "calls_of P (printf m s) = calls_of P s"
  "calls_of P (store a b c s) = calls_of P s"
  "calls_of P (restore a b c s) = calls_of P s"
  "calls_of P (parent_closes e l p p2 s) = calls_of P s"
  by (simp_all add: calls_of_def)










subsection \<open>What a background pipeline writes to its cell\<close>

text \<open>Every iteration of a background pipeline calls \<^verbatim>\<open>pipe\<close> and \<^verbatim>\<open>fork\<close> and stores the
  result of \<^verbatim>\<open>fork\<close> in the next cell of the job's \<^verbatim>\<open>pids\<close> array.\<close>

lemma fork_results_append: "fork_results (xs @ ys) = fork_results xs @ fork_results ys"
  by (induction xs rule: fork_results.induct) simp_all

lemma pipe_sys_trace: "\<exists>b. trace (snd (pipe_sys p s)) = trace s @ [Sys_pipe b]"
  by (auto simp: pipe_sys_def Let_def split: option.splits)

lemma record_pid_pids:
  assumes "record_pid cur command pid s = Inr s'"
  shows "pids (job_list (jobs s') ! nat cur) = (pids (job_list (jobs s) ! nat cur))[nat command := pid]"
    "0 \<le> command" "nat command < length (pids (job_list (jobs s) ! nat cur))"
    "job_finished (job_list (jobs s') ! nat cur) = job_finished (job_list (jobs s) ! nat cur)"
  using assms
  by (auto simp: record_pid_def get_job_def read_at_def write_at_def split: sum.splits if_splits
           dest: put_job_cells)

lemma start_job_pids:
  assumes "start_job buffer n pid s = Inr s'"
  shows "pids (job_list (jobs s') ! nat (jobs_size (jobs s))) =
           (pids (job_list (jobs s) ! nat (jobs_size (jobs s))))[0 := pid]"
    "0 < length (pids (job_list (jobs s) ! nat (jobs_size (jobs s))))"
proof -
  from assms obtain currentJob ps s1 where
    cell: "get_job (jobs_size (jobs s)) s = Inr currentJob"
    and ps: "write_at (pids currentJob) 0 pid = Inr ps"
    and put: "put_job (jobs_size (jobs s))
            (currentJob\<lparr>instruction := buffer, job_size := n, pids := ps, job_finished := 0\<rparr>) s
          = Inr s1"
    and s': "s' = s1\<lparr>jobs := (jobs s1)
               \<lparr>jobs_size := c_rem (jobs_size (jobs s1) + 1) MAXIMUM_JOB_LIST_SIZE\<rparr>\<rparr>"
    by (auto simp: start_job_def split: sum.splits)
  from cell have cur: "currentJob = job_list (jobs s) ! nat (jobs_size (jobs s))"
    by (auto simp: get_job_def read_at_def split: if_splits)
  from ps have "ps = (pids currentJob)[0 := pid]" "0 < length (pids currentJob)"
    by (auto simp: write_at_def split: if_splits)
  with put_job_cells(2) [OF put] cur
  show "pids (job_list (jobs s') ! nat (jobs_size (jobs s))) =
           (pids (job_list (jobs s) ! nat (jobs_size (jobs s))))[0 := pid]"
    "0 < length (pids (job_list (jobs s) ! nat (jobs_size (jobs s))))"
    by (simp_all add: s')
qed

lemma spawn_step_background_trace:
  assumes "spawn_step line True cur command p p2 s = Inr r"
  shows "\<exists>s2 b pid. jobs s2 = jobs s \<and> trace s2 = trace s @ [Sys_pipe b, Sys_fork pid] \<and>
           (\<exists>s3. record_pid cur command pid s2 = Inr s3 \<and>
              jobs (snd (snd r)) = jobs s3 \<and> trace (snd (snd r)) = trace s3)"
proof -
  define piped where "piped = (if c_rem command 2 = 0 then pipe_sys p s else pipe_sys p2 s)"
  define p' where "p' = (if c_rem command 2 = 0 then fst piped else p)"
  define p2' where "p2' = (if c_rem command 2 = 0 then p2 else fst piped)"
  define forked where
    "forked = fork_sys (child_later (snd piped) line command (c_rem command 2 = 0)
                 (command = ncommands line - 1) p' p2') (snd piped)"
  define s2 where
    "s2 = parent_closes (c_rem command 2 = 0) (command = ncommands line - 1) p' p2' (snd forked)"
  have unfolded: "spawn_step line True cur command p p2 s =
      (case record_pid cur command (fst forked) s2 of
         Inl e \<Rightarrow> Inl e
       | Inr s3 \<Rightarrow>
           Inr (p', p2',
                if command = ncommands line - 1
                then printf (Job_started (jobs_size (jobs s3)) (fst forked)) s3 else s3))"
    unfolding spawn_step_def Let_def piped_def p'_def p2'_def forked_def s2_def
    by (simp cong: sum.case_cong if_cong)
  have frame: "jobs s2 = jobs s"
    by (simp add: s2_def forked_def piped_def)
  have "\<exists>b. trace (snd piped) = trace s @ [Sys_pipe b]"
    by (simp add: piped_def pipe_sys_trace)
  then obtain b where b: "trace (snd piped) = trace s @ [Sys_pipe b]" by blast
  have tr: "trace s2 = trace s @ [Sys_pipe b, Sys_fork (fst forked)]"
    by (simp add: s2_def) (simp add: forked_def fork_sys_trace b)
  from assms unfolded obtain s3 where "record_pid cur command (fst forked) s2 = Inr s3"
    and "snd (snd r) = (if command = ncommands line - 1
                        then printf (Job_started (jobs_size (jobs s3)) (fst forked)) s3 else s3)"
    by (auto split: sum.splits)
  then have "record_pid cur command (fst forked) s2 = Inr s3 \<and>
      jobs (snd (snd r)) = jobs s3 \<and> trace (snd (snd r)) = trace s3"
    by simp
  with frame tr show ?thesis by blast
qed

lemma spawn_step_pids:
  assumes "spawn_step line True cur command p p2 s = Inr r"
  shows "\<exists>b pid. trace (snd (snd r)) = trace s @ [Sys_pipe b, Sys_fork pid] \<and>
           pids (job_list (jobs (snd (snd r))) ! nat cur) =
             (pids (job_list (jobs s) ! nat cur))[nat command := pid] \<and>
           0 \<le> command \<and> nat command < length (pids (job_list (jobs s) ! nat cur)) \<and>
           job_finished (job_list (jobs (snd (snd r))) ! nat cur) =
             job_finished (job_list (jobs s) ! nat cur)"
proof -
  from spawn_step_background_trace [OF assms] obtain s2 b pid s3 where
    s2: "jobs s2 = jobs s" "trace s2 = trace s @ [Sys_pipe b, Sys_fork pid]"
    and rec: "record_pid cur command pid s2 = Inr s3"
    and r: "jobs (snd (snd r)) = jobs s3" "trace (snd (snd r)) = trace s3"
    by blast
  from record_pid_pids [OF rec] record_pid_frame(1) [OF rec] s2 r show ?thesis
    by simp
qed

lemma spawn_loop_pids:
  "spawn_loop line nxt True cur command p p2 s = Inr s' \<Longrightarrow>
   \<exists>tr. trace s' = trace s @ tr \<and>
     length (fork_results tr) = (if nxt then nat (ncommands line - command) else 0) \<and>
     pids (job_list (jobs s') ! nat cur) =
       take (nat command) (pids (job_list (jobs s) ! nat cur)) @ fork_results tr @
       drop (nat command + length (fork_results tr)) (pids (job_list (jobs s) ! nat cur)) \<and>
     job_finished (job_list (jobs s') ! nat cur) = job_finished (job_list (jobs s) ! nat cur)"
proof (induction line nxt "True" cur command p p2 s rule: spawn_loop.induct)
  case (1 line nxt cur command p p2 s)
  let ?cell = "pids (job_list (jobs s) ! nat cur)"
  show ?case
  proof (cases "nxt \<and> command < ncommands line")
    case True
    with "1.prems" obtain r where r: "spawn_step line True cur command p p2 s = Inr r"
      and rest: "spawn_loop line nxt True cur (command + 1) (fst r) (fst (snd r)) (snd (snd r)) = Inr s'"
      by (subst (asm) spawn_loop.simps) (auto split: sum.splits)
    from spawn_step_pids [OF r] obtain b pid where
      tr1: "trace (snd (snd r)) = trace s @ [Sys_pipe b, Sys_fork pid]"
      and pids1: "pids (job_list (jobs (snd (snd r))) ! nat cur) = ?cell[nat command := pid]"
      and c: "0 \<le> command" "nat command < length ?cell"
      and fin1: "job_finished (job_list (jobs (snd (snd r))) ! nat cur) =
             job_finished (job_list (jobs s) ! nat cur)"
      by blast
    from "1.hyps" [OF True r rest] obtain tr where
      tr: "trace s' = trace (snd (snd r)) @ tr"
      and len: "length (fork_results tr) = (if nxt then nat (ncommands line - (command + 1)) else 0)"
      and pids': "pids (job_list (jobs s') ! nat cur) =
         take (nat (command + 1)) (?cell[nat command := pid]) @ fork_results tr @
         drop (nat (command + 1) + length (fork_results tr)) (?cell[nat command := pid])"
      and fin: "job_finished (job_list (jobs s') ! nat cur) =
         job_finished (job_list (jobs (snd (snd r))) ! nat cur)"
      by (auto simp: pids1)
    have suc: "nat (command + 1) = Suc (nat command)" using c(1) by simp
    have a: "take (Suc (nat command)) (?cell[nat command := pid]) = take (nat command) ?cell @ [pid]"
      using c(2) by (simp add: take_Suc_conv_app_nth)
    have b: "drop (Suc (nat command) + k) (?cell[nat command := pid]) = drop (Suc (nat command) + k) ?cell"
      for k by simp
    let ?tr = "[Sys_pipe b, Sys_fork pid] @ tr"
    have "trace s' = trace s @ ?tr" by (simp add: tr tr1)
    moreover have "Suc (nat (ncommands line - (command + 1))) = nat (ncommands line - command)"
      using True by arith
    with len True
    have "length (fork_results ?tr) = (if nxt then nat (ncommands line - command) else 0)"
      by simp
    moreover have "pids (job_list (jobs s') ! nat cur) =
        take (nat command) ?cell @ fork_results ?tr @
        drop (nat command + length (fork_results ?tr)) ?cell"
      by (simp add: pids' suc a b)
    moreover have "job_finished (job_list (jobs s') ! nat cur) =
        job_finished (job_list (jobs s) ! nat cur)"
      by (simp add: fin fin1)
    ultimately show ?thesis by blast
  next
    case False
    with "1.prems" have "s' = s" by (subst (asm) spawn_loop.simps) auto
    with False show ?thesis by (intro exI [of _ "[]"]) auto
  qed
qed

lemma spawn_first_background_trace:
  assumes "spawn_first line buffer l s = Inr r" and "background line = 1"
  shows "\<exists>s2 tr pid. jobs s2 = jobs s \<and> trace s2 = trace s @ tr \<and> fork_results tr = [pid] \<and>
           (\<exists>s3. start_job buffer (ncommands line) pid s2 = Inr s3 \<and>
              fst (snd r) = jobs_size (jobs s) \<and>
              jobs (snd (snd r)) = jobs s3 \<and> trace (snd (snd r)) = trace s3)"
proof -
  define s1 where "s1 = store (l_stdinfd l) (l_stdoutfd l) (l_stderrfd l) (signal Ctrlc2 s)"
  define piped where "piped = (if ncommands line > 1 then pipe_sys (l_p l) s1 else (l_p l, s1))"
  define forked where
    "forked = fork_sys (child_first (snd piped) line (ncommands line > 1) (fst piped)) (snd piped)"
  define s2 where
    "s2 = restore (l_stdinfd l) (l_stdoutfd l) (l_stderrfd l) (close_fd (snd (fst piped)) (snd forked))"
  have unfolded: "spawn_first line buffer l s =
      (case start_job buffer (ncommands line) (fst forked) s2 of
         Inl e \<Rightarrow> Inl e
       | Inr s3 \<Rightarrow>
           Inr (fst piped, jobs_size (jobs s2),
                if \<not> ncommands line > 1
                then printf (Job_started (jobs_size (jobs s3)) (fst forked)) s3 else s3))"
    unfolding spawn_first_def Let_def s1_def piped_def forked_def s2_def
    using assms(2) by (simp cong: sum.case_cong if_cong)
  have frame: "jobs s2 = jobs s"
    by (simp add: s2_def forked_def piped_def s1_def)
  obtain tr0 where tr0: "trace (snd piped) = trace s @ tr0" "fork_results tr0 = []"
  proof (cases "ncommands line > 1")
    case True
    obtain b where "trace (snd (pipe_sys (l_p l) s1)) = trace s1 @ [Sys_pipe b]"
      using pipe_sys_trace by blast
    with True have "trace (snd piped) = trace s @ [Sys_pipe b]" by (simp add: piped_def s1_def)
    with that [of "[Sys_pipe b]"] show ?thesis by simp
  next
    case False
    then have "trace (snd piped) = trace s @ []" by (simp add: piped_def s1_def)
    with that [of "[]"] show ?thesis by simp
  qed
  have tr: "trace s2 = trace s @ (tr0 @ [Sys_fork (fst forked)])"
    by (simp add: s2_def) (simp add: forked_def fork_sys_trace tr0)
  have fr: "fork_results (tr0 @ [Sys_fork (fst forked)]) = [fst forked]"
    by (simp add: fork_results_append tr0)
  from assms(1) unfolded obtain s3 where "start_job buffer (ncommands line) (fst forked) s2 = Inr s3"
    and "fst (snd r) = jobs_size (jobs s2)"
    and "snd (snd r) = (if \<not> ncommands line > 1
                        then printf (Job_started (jobs_size (jobs s3)) (fst forked)) s3 else s3)"
    by (auto split: sum.splits)
  then have "start_job buffer (ncommands line) (fst forked) s2 = Inr s3 \<and>
      fst (snd r) = jobs_size (jobs s) \<and>
      jobs (snd (snd r)) = jobs s3 \<and> trace (snd (snd r)) = trace s3"
    using frame by simp
  with frame tr fr show ?thesis by blast
qed

lemma executeExternalCommands_background_cell:
  assumes run: "executeExternalCommands line buffer l s = Inr s'" and bg: "background line = 1"
  shows "trace s' = trace s @ new_calls s s'"
    and "length (forked_pids s s') = (if 1 < ncommands line then nat (ncommands line) else 1)"
    and "pids (written_cell s s') =
           forked_pids s s' @
           drop (length (forked_pids s s')) (pids (job_list (jobs s) ! nat (jobs_size (jobs s))))"
    and "job_size (written_cell s s') = ncommands line"
    and "job_finished (written_cell s s') = 0"
proof -
  let ?cur = "jobs_size (jobs s)"
  let ?cell = "pids (job_list (jobs s) ! nat ?cur)"
  from run obtain r s5 where r: "spawn_first line buffer l s = Inr r"
    and loop: "spawn_loop line (ncommands line > 1) (background line = 1) (fst (snd r)) 1 (fst r)
        (l_p2 l) (snd (snd r)) = Inr s5"
    and s': "s' = signal Ctrlc (restore (l_stdinfd l) (l_stdoutfd l) (l_stderrfd l) s5)"
    by (auto simp: executeExternalCommands_def split: sum.splits)
  from spawn_first_background_trace [OF r bg] obtain s2 tr0 pid s3 where
    s2: "jobs s2 = jobs s" "trace s2 = trace s @ tr0" "fork_results tr0 = [pid]"
    and start: "start_job buffer (ncommands line) pid s2 = Inr s3"
    and cur: "fst (snd r) = ?cur"
    and s4: "jobs (snd (snd r)) = jobs s3" "trace (snd (snd r)) = trace s3"
    by blast
  from start_job_pids [OF start] s2(1)
  have pids3: "pids (job_list (jobs s3) ! nat ?cur) = ?cell[0 := pid]" and room: "0 < length ?cell"
    by simp_all
  from start_job_cells(3,4) [OF start] s2(1)
  have size3: "job_size (job_list (jobs s3) ! nat ?cur) = ncommands line"
    and fin3: "job_finished (job_list (jobs s3) ! nat ?cur) = 0"
    by simp_all
  from spawn_loop_pids [of line "ncommands line > 1" "fst (snd r)" 1 "fst r" "l_p2 l" "snd (snd r)" s5]
    loop bg cur
  obtain tr where tr: "trace s5 = trace (snd (snd r)) @ tr"
    and len: "length (fork_results tr) = (if ncommands line > 1 then nat (ncommands line - 1) else 0)"
    and pids5: "pids (job_list (jobs s5) ! nat ?cur) =
       take (nat 1) (pids (job_list (jobs (snd (snd r))) ! nat ?cur)) @ fork_results tr @
       drop (nat 1 + length (fork_results tr)) (pids (job_list (jobs (snd (snd r))) ! nat ?cur))"
    and fin5: "job_finished (job_list (jobs s5) ! nat ?cur) =
       job_finished (job_list (jobs (snd (snd r))) ! nat ?cur)"
    by auto
  have trace: "trace s' = trace s @ (tr0 @ tr)"
    by (simp add: s' tr s4(2) start_job_frame(1) [OF start] s2(2))
  then have new: "new_calls s s' = tr0 @ tr" by (simp add: new_calls_def)
  with trace show "trace s' = trace s @ new_calls s s'" by simp
  have forked: "forked_pids s s' = pid # fork_results tr"
    by (simp add: forked_pids_def new fork_results_append s2(3))
  moreover have "1 < ncommands line \<Longrightarrow> Suc (nat (ncommands line - 1)) = nat (ncommands line)"
    by arith
  ultimately
  show "length (forked_pids s s') = (if 1 < ncommands line then nat (ncommands line) else 1)"
    using len by simp
  have "take (Suc 0) (?cell[0 := pid]) = [pid]" using room by (cases ?cell) simp_all
  moreover have "drop (Suc k) (?cell[0 := pid]) = drop (Suc k) ?cell" for k by simp
  ultimately have "pids (job_list (jobs s') ! nat ?cur) =
      (pid # fork_results tr) @ drop (length (pid # fork_results tr)) ?cell"
    by (simp add: s' pids5 s4(1) pids3)
  then show "pids (written_cell s s') =
      forked_pids s s' @ drop (length (forked_pids s s')) ?cell"
    by (simp only: written_cell_def forked)
  from spawn_loop_jobs [OF loop] cur s4(1) size3
  show "job_size (written_cell s s') = ncommands line" by (simp add: written_cell_def s')
  from fin5 s4(1) fin3 show "job_finished (written_cell s s') = 0" by (simp add: written_cell_def s')
qed

subsection \<open>What \<^verbatim>\<open>atoi\<close> makes of an argument\<close>











subsection \<open>The concrete shells are states that sessions reach\<close>

lemma shell1_is_reached:
  "session [Line (pipeline [''a''] 1) ''a &'' ones_frame] shell0 = Inr shell1"
  by (simp add: executeExternalCommands_def spawn_first_def spawn_loop.simps start_job_def
        get_job_def put_job_def read_at_def write_at_def c_rem_def child_first_def redirect_def
        run_def fork_sys_def store_def restore_def dup2_def dup2_fdt_def close_fd_def
        close_fdt_def signal_def printf_def pipeline_def ones_frame_def shell0_def shell1_def
        job_of_def blank_job_def MAXIMUM_JOB_LIST_SIZE_def MAXIMUM_PID_LIST_SIZE_def
        STDIN_FILENO_def STDOUT_FILENO_def STDERR_FILENO_def Let_def)

lemma three_jobs_reached:
  "on_return visible_jobs
     (session [Line (pipeline [''a''] 1) ''a &'' ones_frame,
               Line (pipeline [''b''] 1) ''b &'' ones_frame,
               Line (pipeline [''c''] 1) ''c &'' ones_frame] shell0) =
   Inr (visible three_jobs)"
  by code_simp

section \<open>The claims\<close>

text \<open>
  C1. Whenever \<^verbatim>\<open>executeExternalCommands\<close> returns (foreground or background, any number
  of commands, also after a failed \<^verbatim>\<open>pipe\<close> or \<^verbatim>\<open>fork\<close>), the shell's standard input,
  output and error are bound as they were before the call.

  The code does not achieve this. \<^verbatim>\<open>store\<close> never assigns the three locals that are to
  hold the snapshot: it duplicates the standard streams \<^emph>\<open>onto\<close> whatever numbers the
  locals happen to hold, and \<^verbatim>\<open>restore\<close> duplicates back from those numbers. With a stack
  frame of zeros, the line \<^verbatim>\<open>a | b\<close> leaves all three streams bound to what was the
  standard output. For one command, moreover, \<^verbatim>\<open>close(p[PIPE_WRITE])\<close> closes whatever
  number the unassigned \<^verbatim>\<open>p[1]\<close> holds: with the same frame the line \<^verbatim>\<open>ls\<close> leaves the
  standard input closed.
\<close>

theorem execute_changes_streams:
  "stream_bindings shell0 = [Some (Inherited 0), Some (Inherited 1), Some (Inherited 2)] \<and>
   on_return stream_bindings
     (executeExternalCommands (pipeline [''a'', ''b''] 0) ''a | b'' zero_frame shell0) =
   Inr [Some (Inherited 1), Some (Inherited 1), Some (Inherited 1)] \<and>
   on_return stream_bindings
     (executeExternalCommands (pipeline [''ls''] 0) ''ls'' zero_frame shell0) =
   Inr [None, Some (Inherited 1), Some (Inherited 2)]"
  by code_simp




text \<open>
  C3. \<^verbatim>\<open>finished\<close> answers 1 at once for a job whose flag is latched; otherwise it answers
  0 while one of the job's processes is running, and latches the flag and answers 1 when
  all have exited; so, whatever calls were made before, once all processes of a job have
  exited a later call reports the job finished, and no process is polled again after it
  was reaped.

  The code does not achieve the last part. \<^verbatim>\<open>finished\<close> reaps the processes that have
  exited before it meets one that is still running; at the next call \<^verbatim>\<open>waitpid\<close> fails on
  the reaped ones, and the loop leaves with 0 for ever. After \<^verbatim>\<open>a | b &\<close>, the end of \<^verbatim>\<open>a\<close>,
  a \<^verbatim>\<open>jobs\<close> command (whose call of \<^verbatim>\<open>finished\<close> reaps process 100 and finds process 101
  running) and the end of \<^verbatim>\<open>b\<close>, the only child left is the terminated \<^verbatim>\<open>b\<close>; \<^verbatim>\<open>finished\<close>
  polls process 100 again, gets -1, and answers 0.
\<close>

theorem finished_misses_partly_reaped_job:
  "on_return procs half_reaped = Inr [(101, Zombie)] \<and>
   on_return out half_reaped = Inr [Job_started 1 101, Job_running 1 ''a | b &''] \<and>
   on_return fst (and_then half_reaped (finished 0)) = Inr 0 \<and>
   on_return trace (on_return snd (and_then half_reaped (finished 0))) =
     Inr [Sys_pipe True, Sys_fork 100, Sys_pipe True, Sys_fork 101,
          Sys_waitpid 100 True 100, Sys_waitpid 101 True 0, Sys_waitpid 100 True (- 1)]"
  by code_simp

text \<open>
  C4, as stated: with the registry at its capacity, a new background job is rejected:
  no entry of the registry is overwritten or made invisible, and the size counter does
  not wrap around. It fails: after 49 background jobs the counter is 49; the fiftieth
  job fills the array, and the counter is 0; the job after it is written over the first
  one (whose process was 100), and the registry shows that job alone.
\<close>

theorem fiftieth_job_wraps_size:
  "on_return registry_size (background_jobs 49) = Inr 49 \<and>
   on_return registry_size (background_jobs 50) = Inr 0 \<and>
   on_return listed_pids (background_jobs 50) = Inr [] \<and>
   on_return listed_pids (background_jobs 51) = Inr [[150]]"
  by code_simp

text \<open>
  C4, amended: starting a background pipeline never fails for lack of room in the
  registry. When the cell at the size counter exists and its \<^verbatim>\<open>pids\<close> array has a cell for
  each command (at most 25 in the program), the call returns, and the new job is written
  to that cell: the instruction is the line, the number of commands is that of the line,
  the finished flag is 0, and the first cells of \<^verbatim>\<open>pids\<close> hold, in order, the results of the
  calls of \<^verbatim>\<open>fork\<close> made for the commands (one for each command), the other cells of
  \<^verbatim>\<open>pids\<close> keeping what they held. No other cell of the array is modified, and the counter
  becomes (size + 1) mod 50; so when the registry counts 49 jobs (the most the counter
  can show) the job is written to the last cell and the counter wraps around to 0: the
  registry then shows no job.
\<close>

theorem insertion_wraps_around:
  assumes "background line = 1"
    and "room_for (ncommands line) (jobs_size (jobs s)) (jobs s)"
  shows "\<exists>s'. executeExternalCommands line buffer l s = Inr s' \<and>
           jobs_size (jobs s') = c_rem (jobs_size (jobs s) + 1) MAXIMUM_JOB_LIST_SIZE \<and>
           untouched_but (nat (jobs_size (jobs s))) (jobs s) (jobs s') \<and>
           instruction (written_cell s s') = buffer \<and>
           job_size (written_cell s s') = ncommands line \<and>
           job_finished (written_cell s s') = 0 \<and>
           trace s' = trace s @ new_calls s s' \<and>
           length (forked_pids s s') = (if 1 < ncommands line then nat (ncommands line) else 1) \<and>
           pids (written_cell s s') =
             forked_pids s s' @
             drop (length (forked_pids s s')) (pids (job_list (jobs s) ! nat (jobs_size (jobs s)))) \<and>
           (jobs_size (jobs s) = MAXIMUM_JOB_LIST_SIZE - 1 \<longrightarrow>
              jobs_size (jobs s') = 0 \<and> visible_jobs s' = [])"
proof -
  from executeExternalCommands_background_returns [OF assms]
  obtain s' where run: "executeExternalCommands line buffer l s = Inr s'" by blast
  note facts = executeExternalCommands_background [OF run assms(1)]
  note cell = executeExternalCommands_background_cell [OF run assms(1)]
  have "jobs_size (jobs s') = 0 \<and> visible_jobs s' = []"
    if "jobs_size (jobs s) = MAXIMUM_JOB_LIST_SIZE - 1"
    using facts(2) that
    by (simp add: MAXIMUM_JOB_LIST_SIZE_def c_rem_def visible_jobs_def visible_def)
  moreover from facts(3) have "instruction (written_cell s s') = buffer"
    by (simp add: written_cell_def)
  ultimately show ?thesis using run facts(1,2) cell by blast
qed

theorem insertion_wraps_around_witness:
  "background (pipeline [''a'', ''b''] 1) = 1 \<and>
   jobs_size (jobs shell49) = MAXIMUM_JOB_LIST_SIZE - 1 \<and>
   on_return registry_size
     (executeExternalCommands (pipeline [''a'', ''b''] 1) ''a | b &'' ones_frame shell49) = Inr 0 \<and>
   on_return (\<lambda>s'. take 3 (pids (written_cell shell49 s')))
     (executeExternalCommands (pipeline [''a'', ''b''] 1) ''a | b &'' ones_frame shell49) =
   Inr [100, 101, 0]"
proof -
  let ?line = "pipeline [''a'', ''b''] 1"
  let ?run = "executeExternalCommands ?line ''a | b &'' ones_frame shell49"
  have bg: "background ?line = 1" by (simp add: pipeline_def)
  have full: "jobs_size (jobs shell49) = MAXIMUM_JOB_LIST_SIZE - 1"
    by (simp add: shell49_def MAXIMUM_JOB_LIST_SIZE_def)
  have room: "room_for (ncommands ?line) (jobs_size (jobs shell49)) (jobs shell49)"
    by (simp add: room_for_def shell49_def shell0_def pipeline_def blank_job_def
          MAXIMUM_JOB_LIST_SIZE_def MAXIMUM_PID_LIST_SIZE_def)
  have cell: "pids (job_list (jobs shell49) ! nat (jobs_size (jobs shell49))) =
      replicate MAXIMUM_PID_LIST_SIZE 0"
    by (simp add: shell49_def shell0_def blank_job_def MAXIMUM_JOB_LIST_SIZE_def)
  have forked: "on_return (forked_pids shell49) ?run = Inr [100, 101]"
    by code_simp
  from insertion_wraps_around [OF bg room, of "''a | b &''" ones_frame] full
  obtain s' where run: "?run = Inr s'"
    and size: "jobs_size (jobs s') = 0"
    and pids: "pids (written_cell shell49 s') =
      forked_pids shell49 s' @
      drop (length (forked_pids shell49 s'))
        (pids (job_list (jobs shell49) ! nat (jobs_size (jobs shell49))))"
    by blast
  from forked run have "forked_pids shell49 s' = [100, 101]" by (simp add: on_return_def)
  with pids cell have "take 3 (pids (written_cell shell49 s')) = [100, 101, 0]"
    by (simp add: MAXIMUM_PID_LIST_SIZE_def)
  with run size bg full show ?thesis by (simp add: on_return_def registry_size_def)
qed

text \<open>
  C5. \<^verbatim>\<open>mshjobs\<close> prints a status line for every job, and the jobs found finished in that
  pass, and only those, are removed after the pass; so a job whose processes have all
  exited is listed as Done once and is then gone.

  The code does not achieve this. The indices of the finished jobs are recorded during
  the pass and deleted afterwards in ascending order, but each \<^verbatim>\<open>delete\<close> moves the later
  jobs down by one, so every recorded index after the first names the neighbour of the
  job it was recorded for. With the jobs \<^verbatim>\<open>a &\<close>, \<^verbatim>\<open>b &\<close>, \<^verbatim>\<open>c &\<close>, of which \<^verbatim>\<open>a\<close> and \<^verbatim>\<open>b\<close> have
  exited, the listing is right, but afterwards the registry holds the finished \<^verbatim>\<open>b &\<close>,
  and the running \<^verbatim>\<open>c &\<close> (process 102) is gone from it.
\<close>

theorem listing_removes_running_job:
  "on_return out three_jobs_listed =
     Inr [Job_started 1 100, Job_started 2 101, Job_started 3 102,
          Job_done 1 ''a &'', Job_done 2 ''b &'', Job_running 3 ''c &''] \<and>
   on_return listed_instructions three_jobs_listed = Inr [''b &''] \<and>
   on_return procs three_jobs_listed = Inr [(102, Running)]"
  by code_simp

text \<open>
  C6, as stated: the slot number announced for every background job is its 1-based
  position in the registry at the moment of insertion. It fails for the fiftieth job,
  which is announced as job 0.
\<close>

theorem fiftieth_job_announced_as_zero:
  "on_return (messages_from 49) (background_jobs 50) = Inr [Job_started 0 149]"
  by code_simp

text \<open>
  C6, amended: for every background job started while the registry counts fewer than 49
  jobs (and the job fits the arrays), the one message printed announces the old size
  plus one, which is the 1-based position of the cell the job was written to; and for
  every removal of the job in the slot \<open>k + 1\<close> of a registry, the jobs in the slots up to
  \<open>k\<close> stay, the job is gone, and every job in a later slot moves down by exactly one
  position, so that the visible slot numbers are again 1, 2, ... without a gap or a
  duplicate.
\<close>

theorem slot_numbers:
  "(background line = 1 \<and> 0 \<le> jobs_size (jobs s) \<and>
    jobs_size (jobs s) < MAXIMUM_JOB_LIST_SIZE - 1 \<and>
    room_for (ncommands line) (jobs_size (jobs s)) (jobs s) \<longrightarrow>
      (\<exists>s' pid. executeExternalCommands line buffer l s = Inr s' \<and>
         out s' = out s @ [Job_started (jobs_size (jobs s) + 1) pid] \<and>
         jobs_size (jobs s') = jobs_size (jobs s) + 1 \<and>
         instruction (job_list (jobs s') ! nat (jobs_size (jobs s))) = buffer)) \<and>
   (wf_registry js \<and> 0 \<le> k \<and> k < jobs_size js \<longrightarrow>
      (\<exists>js'. delete k js = Inr js' \<and> wf_registry js' \<and>
         jobs_size js' = jobs_size js - 1 \<and>
         visible js' = take (nat k) (visible js) @ drop (Suc (nat k)) (visible js)))"
proof (intro conjI impI)
  assume a: "background line = 1 \<and> 0 \<le> jobs_size (jobs s) \<and>
    jobs_size (jobs s) < MAXIMUM_JOB_LIST_SIZE - 1 \<and>
    room_for (ncommands line) (jobs_size (jobs s)) (jobs s)"
  then have bg: "background line = 1"
    and room: "room_for (ncommands line) (jobs_size (jobs s)) (jobs s)"
    by simp_all
  from a have next_size:
    "c_rem (jobs_size (jobs s) + 1) MAXIMUM_JOB_LIST_SIZE = jobs_size (jobs s) + 1"
    by (intro c_rem_small) simp_all
  from executeExternalCommands_background_returns [OF bg room]
  obtain s' where run: "executeExternalCommands line buffer l s = Inr s'" by blast
  from executeExternalCommands_background(4) [OF run bg] next_size
  obtain pid where "out s' = out s @ [Job_started (jobs_size (jobs s) + 1) pid]" by auto
  moreover from executeExternalCommands_background(2) [OF run bg] next_size
  have "jobs_size (jobs s') = jobs_size (jobs s) + 1" by simp
  moreover from executeExternalCommands_background(3) [OF run bg]
  have "instruction (job_list (jobs s') ! nat (jobs_size (jobs s))) = buffer" .
  ultimately show "\<exists>s' pid. executeExternalCommands line buffer l s = Inr s' \<and>
         out s' = out s @ [Job_started (jobs_size (jobs s) + 1) pid] \<and>
         jobs_size (jobs s') = jobs_size (jobs s) + 1 \<and>
         instruction (job_list (jobs s') ! nat (jobs_size (jobs s))) = buffer"
    using run by blast
next
  assume "wf_registry js \<and> 0 \<le> k \<and> k < jobs_size js"
  then show "\<exists>js'. delete k js = Inr js' \<and> wf_registry js' \<and>
         jobs_size js' = jobs_size js - 1 \<and>
         visible js' = take (nat k) (visible js) @ drop (Suc (nat k)) (visible js)"
    using delete_shifts [of js k] by blast
qed

theorem slot_numbers_witness:
  "(\<exists>pid. on_return out
            (executeExternalCommands (pipeline [''b''] 1) ''b &'' ones_frame shell1) =
          Inr [Job_started 1 100, Job_started 2 pid]) \<and>
   on_return (map instruction) (on_return visible (delete 1 three_jobs)) = Inr [''a &'', ''c &'']"
proof -
  let ?line = "pipeline [''b''] 1"
  have bg: "background ?line = 1" by (simp add: pipeline_def)
  have size: "jobs_size (jobs shell1) = 1" by (simp add: shell1_def shell0_def)
  have room: "room_for (ncommands ?line) (jobs_size (jobs shell1)) (jobs shell1)"
    by (simp add: room_for_def shell1_def shell0_def pipeline_def blank_job_def
          MAXIMUM_JOB_LIST_SIZE_def MAXIMUM_PID_LIST_SIZE_def)
  from slot_numbers [of ?line shell1 "''b &''" ones_frame three_jobs 1] bg size room
  obtain s' pid where run: "executeExternalCommands ?line ''b &'' ones_frame shell1 = Inr s'"
    and "out s' = out shell1 @ [Job_started 2 pid]"
    by (auto simp: MAXIMUM_JOB_LIST_SIZE_def)
  moreover have "out shell1 = [Job_started 1 100]" by (simp add: shell1_def)
  ultimately have first:
    "\<exists>pid. on_return out (executeExternalCommands ?line ''b &'' ones_frame shell1) =
      Inr [Job_started 1 100, Job_started 2 pid]"
    by (auto simp: on_return_def)
  have wf: "wf_registry three_jobs"
    by (simp add: wf_registry_def three_jobs_def MAXIMUM_JOB_LIST_SIZE_def)
  have k: "(0::int) \<le> 1" "1 < jobs_size three_jobs" by (simp_all add: three_jobs_def)
  have vis: "visible three_jobs = [job_of ''a &'' 100, job_of ''b &'' 101, job_of ''c &'' 102]"
    by code_simp
  from slot_numbers [of ?line shell1 "''b &''" ones_frame three_jobs 1] wf k
  obtain js' where "delete 1 three_jobs = Inr js'"
    and "visible js' = take (nat 1) (visible three_jobs) @ drop (Suc (nat 1)) (visible three_jobs)"
    by blast
  then have "on_return (map instruction) (on_return visible (delete 1 three_jobs)) =
      Inr [''a &'', ''c &'']"
    by (simp add: on_return_def vis job_of_def)
  with first show ?thesis by blast
qed

text \<open>
  C7. When the file of a redirection cannot be opened, the diagnostic is printed, the
  stream keeps its binding, and the process goes on to run its command.

  The code does not achieve this: after the diagnostic \<^verbatim>\<open>auxiliarRedirect\<close> does not
  return but calls \<^verbatim>\<open>fileno(file)\<close> with \<^verbatim>\<open>file == NULL\<close>. For \<^verbatim>\<open>cat < missing\<close> the child
  prints the diagnostic and is killed by the null dereference; \<^verbatim>\<open>cat\<close> is never run.
\<close>

theorem unopenable_redirection_kills_child:
  "child_first shell0 cat_from_missing False (- 1, - 1) =
     Crashes Null_Dereference [Open_error ''missing''] \<and>
   on_return images
     (executeExternalCommands cat_from_missing ''cat < missing'' ones_frame shell0) =
   Inr [(100, Crashes Null_Dereference [Open_error ''missing''])]"
  by (simp add: child_first_def redirect_def auxiliarRedirect_def cat_from_missing_def
        pipeline_def shell0_def on_return_def executeExternalCommands_def spawn_first_def
        spawn_loop.simps fork_sys_def wait_sys_def waitpid_sys_def selects_def reap_def
        store_def restore_def dup2_def dup2_fdt_def close_fd_def close_fdt_def signal_def
        ones_frame_def STDIN_FILENO_def STDOUT_FILENO_def STDERR_FILENO_def Let_def)

text \<open>
  C8. In a foreground pipeline every wait of the shell waits for the child it has just
  forked.

  The code does not achieve this: it calls \<^verbatim>\<open>wait(NULL)\<close>, which returns as soon as any
  child has terminated. After \<^verbatim>\<open>a &\<close> and the end of \<^verbatim>\<open>a\<close> (process 100), the foreground
  command \<^verbatim>\<open>ls\<close> is forked as process 101, the wait reaps process 100, and the call
  returns while process 101 is running.
\<close>

theorem foreground_wait_reaps_background_child:
  "on_return trace fg_after_bg_exit = Inr [Sys_fork 100, Sys_fork 101, Sys_wait 100] \<and>
   on_return procs fg_after_bg_exit = Inr [(101, Running)]"
  by code_simp

text \<open>
  C9. After a call that enters a blocking wait (a foreground \<^verbatim>\<open>executeExternalCommands\<close>
  or an \<^verbatim>\<open>mshfg\<close>) has returned, the handler of the interrupt signal is the idle handler
  \<^verbatim>\<open>ctrlc\<close>, on every return path and also when a wait was interrupted.

  Every return of \<^verbatim>\<open>executeExternalCommands\<close> leaves \<^verbatim>\<open>ctrlc\<close> installed, and a foreground
  call always returns, whatever its waits return. \<^verbatim>\<open>mshfg\<close> either leaves \<^verbatim>\<open>ctrlc\<close>
  installed, or it has made no system call at all (it has rejected its argument) and the
  handler is the one that was installed before; and it returns on every registry whose
  jobs fit their arrays.
\<close>

theorem idle_handler_after_wait:
  "(executeExternalCommands line buffer l s = Inr s' \<longrightarrow> sigint s' = Ctrlc) \<and>
   (background line \<noteq> 1 \<longrightarrow>
      (\<exists>s''. executeExternalCommands line buffer l s = Inr s'' \<and> sigint s'' = Ctrlc)) \<and>
   (mshfg job u = Inr t \<longrightarrow>
      sigint t = Ctrlc \<or> (trace t = trace u \<and> sigint t = sigint u)) \<and>
   (fits (jobs u) \<longrightarrow> (\<exists>t'. mshfg job u = Inr t'))"
  using executeExternalCommands_sigint [of line buffer l s]
    executeExternalCommands_foreground [of line buffer l s]
    mshfg_sigint [of job u t] mshfg_returns [of u job]
  by blast

theorem idle_handler_after_wait_witness:
  "on_return trace
     (executeExternalCommands (pipeline [''ls''] 0) ''ls'' ones_frame interrupted_shell) =
     Inr [Sys_fork 100, Sys_wait (- 1)] \<and>
   on_return sigint
     (executeExternalCommands (pipeline [''ls''] 0) ''ls'' ones_frame interrupted_shell) =
     Inr Ctrlc \<and>
   on_return trace (mshfg None shell1) =
     Inr [Sys_fork 100, Sys_waitpid 100 True 0, Sys_waitpid 100 False 100] \<and>
   on_return sigint (mshfg None shell1) = Inr Ctrlc"
proof -
  let ?line = "pipeline [''ls''] 0"
  have fg: "background ?line \<noteq> 1" by (simp add: pipeline_def)
  have tr1: "on_return trace (executeExternalCommands ?line ''ls'' ones_frame interrupted_shell) =
      Inr [Sys_fork 100, Sys_wait (- 1)]"
    by code_simp
  have tr2: "on_return trace (mshfg None shell1) =
      Inr [Sys_fork 100, Sys_waitpid 100 True 0, Sys_waitpid 100 False 100]"
    by code_simp
  have "fits (jobs shell1)"
    by (simp add: fits_def wf_registry_def shell1_def job_of_def MAXIMUM_JOB_LIST_SIZE_def
          MAXIMUM_PID_LIST_SIZE_def)
  with idle_handler_after_wait [where job = None and u = shell1]
  obtain t where t: "mshfg None shell1 = Inr t" by blast
  with tr2 have changed: "trace t \<noteq> trace shell1"
    by (simp add: on_return_def shell1_def)
  from idle_handler_after_wait [of ?line "''ls''" ones_frame interrupted_shell] fg
  obtain s'' where "executeExternalCommands ?line ''ls'' ones_frame interrupted_shell = Inr s''"
    and "sigint s'' = Ctrlc"
    by blast
  then have h1: "on_return sigint
      (executeExternalCommands ?line ''ls'' ones_frame interrupted_shell) = Inr Ctrlc"
    by (simp add: on_return_def)
  from idle_handler_after_wait [where job = None and u = shell1 and t = t] t changed
  have "sigint t = Ctrlc" by blast
  with t have h2: "on_return sigint (mshfg None shell1) = Inr Ctrlc"
    by (simp add: on_return_def)
  from tr1 h1 tr2 h2 show ?thesis by blast
qed




end
